theory Spec2Isabelle
  imports Complex_Main
begin

section \<open>Data model (types/index.ts)\<close>

text \<open>
  The enums \<open>MemoryType\<close> and \<open>MemoryCategory\<close> are closed sets of string tags.
  JavaScript numbers are modelled exactly: timestamps (milliseconds) and counters as
  \<open>int\<close>/\<open>nat\<close>, scores as \<open>real\<close>; \<open>NaN\<close> and rounding are outside the model.
  A string is a list of code units. Identifiers produced by \<open>uuidv4()\<close> are modelled as
  natural numbers drawn from a supply of fresh ids.
\<close>

datatype MemoryType = CONVERSATION | EXTRACTED_FACT | PREFERENCE | SENTIMENT | EVENT

datatype MemoryCategory = BUG_REPORT | FEATURE_REQUEST | QUESTION | FEEDBACK | TECHNICAL | GENERAL

text \<open>The keys of the open \<open>metadata\<close> map that the memory engine itself writes.\<close>

record Metadata =
  extractedFrom :: "string option"
  originalMessage :: "string option"
  confidence :: "real option"
  replacedMemoryId :: "nat option"
  replacedAt :: "int option"

record Memory =
  memId :: nat
  userId :: string
  content :: string
  embedding :: "real list option"
  memType :: MemoryType
  category :: MemoryCategory
  timestamp :: int
  sessionId :: "string option"
  importance :: real
  relevance :: "real option"
  metadata :: "Metadata option"

record SearchResult =
  memory :: Memory
  distance :: real
  sr_relevance :: real

record ReRankOptions =
  importanceWeight :: "real option"
  recencyWeight :: "real option"
  similarityWeight :: "real option"
section \<open>Strings\<close>

definition newline :: char where
  "newline = CHR 0x0A"

fun show_nat :: "nat \<Rightarrow> string" where
  "show_nat n = (if n < 10 then [''0123456789'' ! n] else show_nat (n div 10) @ [''0123456789'' ! (n mod 10)])"

declare show_nat.simps [simp del]

definition show_int :: "int \<Rightarrow> string" where
  "show_int i = (if i < 0 then CHR ''-'' # show_nat (nat (- i)) else show_nat (nat i))"


text \<open>
  String functions of JavaScript on ASCII text: \<open>toLowerCase\<close> maps \<open>A\<close>-\<open>Z\<close> to
  \<open>a\<close>-\<open>z\<close>; \<open>trim\<close> removes white space and line terminators at both ends.
\<close>

definition lowerChar :: "char \<Rightarrow> char" where
  "lowerChar c = (case map_of (zip ''ABCDEFGHIJKLMNOPQRSTUVWXYZ'' ''abcdefghijklmnopqrstuvwxyz'') c of
                    None \<Rightarrow> c | Some d \<Rightarrow> d)"

definition toLowerCase :: "string \<Rightarrow> string" where
  "toLowerCase s = map lowerChar s"

definition isLetter :: "char \<Rightarrow> bool" where
  "isLetter c = (c \<in> set ''abcdefghijklmnopqrstuvwxyzABCDEFGHIJKLMNOPQRSTUVWXYZ'')"

definition isDigit :: "char \<Rightarrow> bool" where
  "isDigit c = (c \<in> set ''0123456789'')"

definition isWordChar :: "char \<Rightarrow> bool" where
  "isWordChar c = (isLetter c \<or> isDigit c \<or> c = CHR ''_'')"

definition isSpace :: "char \<Rightarrow> bool" where
  "isSpace c = (c \<in> set [CHR 0x20, CHR 0x09, CHR 0x0A, CHR 0x0B, CHR 0x0C, CHR 0x0D, CHR 0xA0])"

definition isLineTerminator :: "char \<Rightarrow> bool" where
  "isLineTerminator c = (c = CHR 0x0A \<or> c = CHR 0x0D)"

definition trim :: "string \<Rightarrow> string" where
  "trim s = rev (dropWhile isSpace (rev (dropWhile isSpace s)))"

definition startsWith :: "string \<Rightarrow> string \<Rightarrow> bool" where
  "startsWith s pat = (take (length pat) s = pat)"

fun includesStr :: "string \<Rightarrow> string \<Rightarrow> bool" where
  "includesStr [] pat = (pat = [])"
| "includesStr (c # s) pat = (startsWith (c # s) pat \<or> includesStr s pat)"

text \<open>
  The regular expressions \<open>/pat([a-zA-Z]+)/i\<close> of the keyword extractor: the leftmost
  place where \<open>pat\<close> (given in lower case) occurs, whatever the case, followed by a letter;
  the capture is the longest run of letters there.
\<close>

fun matchLetters :: "string \<Rightarrow> string \<Rightarrow> string option" where
  "matchLetters pat [] = None"
| "matchLetters pat (c # s) =
     (if toLowerCase (take (length pat) (c # s)) = pat
         \<and> takeWhile isLetter (drop (length pat) (c # s)) \<noteq> []
      then Some (takeWhile isLetter (drop (length pat) (c # s)))
      else matchLetters pat s)"
section \<open>Context assembly (prompts.ts)\<close>

definition estimateTokens :: "string \<Rightarrow> nat" where
  "estimateTokens text = (length text + 3) div 4"

definition timeStr :: "int \<Rightarrow> Memory \<Rightarrow> string" where
  "timeStr now item =
     (let daysAgo = (now - timestamp item) div (1000 * 60 * 60 * 24)
      in if daysAgo = 0 then ''today'' else if daysAgo = 1 then ''yesterday''
         else show_int daysAgo @ '' days ago'')"

definition formatLine :: "int \<Rightarrow> nat \<Rightarrow> nat \<Rightarrow> Memory \<Rightarrow> string" where
  "formatLine now charLimit i item =
     (let c = (if length (content item) > charLimit then take charLimit (content item) @ ''...''
               else content item)
      in show_nat (i + 1) @ ''. ['' @ timeStr now item @ ''] '' @ c)"

definition truncationMarker :: "nat \<Rightarrow> string" where
  "truncationMarker n = ''... ('' @ show_nat n @ '' more items truncated due to context limit)''"

function addLines :: "int \<Rightarrow> int \<Rightarrow> Memory list \<Rightarrow> nat \<Rightarrow> nat \<Rightarrow> nat \<Rightarrow> string list \<times> nat \<Rightarrow> string list \<times> nat" where
  "addLines now maxTokens items maxItems charLimit i (sections, currentTokens) =
     (if i < min (length items) maxItems then
        (let line = formatLine now charLimit i (items ! i);
             lineTokens = estimateTokens line
         in if int currentTokens + int lineTokens > maxTokens
            then (sections @ [truncationMarker (length items - i)], currentTokens)
            else addLines now maxTokens items maxItems charLimit (i + 1)
                   (sections @ [line], currentTokens + lineTokens))
      else (sections, currentTokens))"
  by pat_completeness auto
termination
  by (relation "measure (\<lambda>(now, maxTokens, items, maxItems, charLimit, i, st). min (length items) maxItems - i)") auto

declare addLines.simps [simp del]

definition addSection :: "int \<Rightarrow> int \<Rightarrow> string \<Rightarrow> Memory list \<Rightarrow> nat \<Rightarrow> nat \<Rightarrow> string list \<times> nat \<Rightarrow> string list \<times> nat" where
  "addSection now maxTokens title items maxItems charLimit st =
     (case st of (sections, currentTokens) \<Rightarrow>
        if items = [] then (sections, currentTokens)
        else (let sectionStart = newline # title;
                  currentTokens' = currentTokens + estimateTokens sectionStart
              in if int currentTokens' \<ge> maxTokens then (sections, currentTokens')
                 else addLines now maxTokens items maxItems charLimit 0
                        (sections @ [sectionStart], currentTokens')))"




section \<open>Embedding client and cache (models/ollama.ts)\<close>

text \<open>
  Every \<open>throw\<close> of the engine is a value of \<open>error\<close>, named after the message or the
  kind of the JavaScript error.
\<close>

datatype error =
    NotInitializedError
  | EmbeddingGenerationFailed
  | ChatFailed
  | SearchFailed
  | SearchByEmbeddingFailed
  | AddMemoryFailed
  | DeleteMemoryFailed
  | TypeError

text \<open>
  A JavaScript \<open>Map\<close> keeps its entries in insertion order: \<open>set\<close> on a present key
  replaces the value in place, on an absent key appends; \<open>keys().next().value\<close> is the
  key of the oldest entry; \<open>get\<close> changes nothing.
\<close>

fun map_set :: "('k \<times> 'v) list \<Rightarrow> 'k \<Rightarrow> 'v \<Rightarrow> ('k \<times> 'v) list" where
  "map_set [] k v = [(k, v)]"
| "map_set (p # ps) k v = (if fst p = k then (k, v) # ps else p # map_set ps k v)"

definition map_delete :: "('k \<times> 'v) list \<Rightarrow> 'k \<Rightarrow> ('k \<times> 'v) list" where
  "map_delete m k = filter (\<lambda>p. fst p \<noteq> k) m"

text \<open>
  The client state: the cache, the readonly capacity \<open>MAX_CACHE_SIZE\<close> (1000 in the
  constructor) and the counters of \<open>stats\<close>.
\<close>

record OllamaClient =
  embeddingCache :: "(string \<times> real list) list"
  MAX_CACHE_SIZE :: nat
  cacheHits :: nat
  cacheMisses :: nat
  totalEmbeddings :: nat
  totalChats :: nat

definition newOllamaClient :: OllamaClient where
  "newOllamaClient = \<lparr> embeddingCache = [], MAX_CACHE_SIZE = 1000, cacheHits = 0, cacheMisses = 0,
     totalEmbeddings = 0, totalChats = 0 \<rparr>"

text \<open>
  \<open>getCacheKey\<close> is the SHA-256 digest of the text, taken as a parameter. When the cache
  is full the first key is deleted (on an empty map the key is \<open>undefined\<close> and nothing is
  deleted), then the entry is set.
\<close>

definition cacheEmbedding ::
  "(string \<Rightarrow> string) \<Rightarrow> string \<Rightarrow> real list \<Rightarrow> OllamaClient \<Rightarrow> OllamaClient" where
  "cacheEmbedding getCacheKey text emb c =
     (let key = getCacheKey text;
          cache = (if length (embeddingCache c) \<ge> MAX_CACHE_SIZE c
                   then (case embeddingCache c of [] \<Rightarrow> []
                         | (firstKey, v) # rest \<Rightarrow> map_delete (embeddingCache c) firstKey)
                   else embeddingCache c)
      in c\<lparr>embeddingCache := map_set cache key emb\<rparr>)"

text \<open>
  \<open>embeddings\<close> is the embedding provider (\<open>this.client.embeddings\<close>); \<open>None\<close> is a
  failed call, rethrown as "Embedding generation failed". A cached array is always truthy.
\<close>

definition generateEmbedding ::
  "(string \<Rightarrow> real list option) \<Rightarrow> (string \<Rightarrow> string) \<Rightarrow> string \<Rightarrow> bool \<Rightarrow> OllamaClient
     \<Rightarrow> (error + real list) \<times> OllamaClient" where
  "generateEmbedding embeddings getCacheKey text useCache c =
     (let c1 = c\<lparr>totalEmbeddings := totalEmbeddings c + 1\<rparr>;
          cached = (if useCache then map_of (embeddingCache c1) (getCacheKey text) else None)
      in case cached of
           Some e \<Rightarrow> (Inr e, c1\<lparr>cacheHits := cacheHits c1 + 1\<rparr>)
         | None \<Rightarrow>
             (let c2 = (if useCache then c1\<lparr>cacheMisses := cacheMisses c1 + 1\<rparr> else c1)
              in case embeddings text of
                   None \<Rightarrow> (Inl EmbeddingGenerationFailed, c2)
                 | Some emb \<Rightarrow>
                     (Inr emb,
                      if useCache then cacheEmbedding getCacheKey text emb c2 else c2)))"
section \<open>Vector store (memory/vectorStore.ts)\<close>

text \<open>
  Modelled from the spec: the Vector Index (the ChromaDB collection behind
  \<open>this.collection\<close>) is a black box with insert, k-nearest-neighbour query with metadata
  filtering, get by filter and delete by id. Here it is the list of the stored records in
  insertion order. A query returns the records that match the \<open>where\<close> clause, nearest
  first under the index's distance \<open>vdist\<close> (equal distances in insertion order), at most
  \<open>nResults\<close> of them, each with its distance. \<open>available = False\<close> stands for an index
  whose calls fail.
\<close>

record VectorStore =
  vs_initialized :: bool
  available :: bool
  collection :: "Memory list"

definition storedEmbedding :: "Memory \<Rightarrow> real list" where
  "storedEmbedding m = (case embedding m of None \<Rightarrow> [] | Some e \<Rightarrow> e)"

definition collection_query ::
  "(real list \<Rightarrow> real list \<Rightarrow> real) \<Rightarrow> real list \<Rightarrow> nat \<Rightarrow> (Memory \<Rightarrow> bool) \<Rightarrow> Memory list
     \<Rightarrow> (Memory \<times> real) list" where
  "collection_query vdist queryEmbedding nResults wh records =
     take nResults (sort_key snd (map (\<lambda>m. (m, vdist queryEmbedding (storedEmbedding m))) (filter wh records)))"

definition collection_get :: "(Memory \<Rightarrow> bool) \<Rightarrow> Memory list \<Rightarrow> Memory list" where
  "collection_get wh records = filter wh records"

definition collection_delete :: "nat \<Rightarrow> Memory list \<Rightarrow> Memory list" where
  "collection_delete i records = filter (\<lambda>m. memId m \<noteq> i) records"

text \<open>
  A record is stored with the metadata \<open>userId, type, category, timestamp, sessionId || '',
  importance\<close> and the memory's own metadata keys. Reading applies the defaults of the
  source: \<open>timestamp || Date.now()\<close> and \<open>importance || 0.5\<close> replace a stored 0.
\<close>

definition emptyMetadata :: Metadata where
  "emptyMetadata = \<lparr> extractedFrom = None, originalMessage = None, confidence = None,
     replacedMemoryId = None, replacedAt = None \<rparr>"

definition storedSessionId :: "Memory \<Rightarrow> string" where
  "storedSessionId m = (case sessionId m of None \<Rightarrow> [] | Some s \<Rightarrow> s)"

definition storedMetadata :: "Memory \<Rightarrow> Metadata" where
  "storedMetadata m = (case metadata m of None \<Rightarrow> emptyMetadata | Some md \<Rightarrow> md)"

definition formatSearchResult :: "int \<Rightarrow> Memory \<times> real \<Rightarrow> SearchResult" where
  "formatSearchResult now row =
     (case row of (m, d) \<Rightarrow>
        \<lparr> memory = \<lparr> memId = memId m, userId = userId m, content = content m, embedding = None,
                      memType = memType m, category = category m,
                      timestamp = (if timestamp m = 0 then now else timestamp m),
                      sessionId = (if storedSessionId m = [] then None else Some (storedSessionId m)),
                      importance = (if importance m = 0 then 0.5 else importance m),
                      relevance = Some (1 - d),
                      metadata = Some (storedMetadata m) \<rparr>,
          distance = d,
          sr_relevance = 1 - d \<rparr>)"

definition formatSearchResults :: "int \<Rightarrow> (Memory \<times> real) list \<Rightarrow> SearchResult list" where
  "formatSearchResults now rows = map (formatSearchResult now) rows"

text \<open>
  \<open>embedText\<close> is \<open>ollamaClient.generateEmbedding\<close> seen as a function of the text (\<open>None\<close>:
  the call throws); the cache only ever holds what the provider returned for the same text.
  \<open>ensureInitialized\<close> throws before the \<open>try\<close>; every failure inside it is rethrown
  as "Search failed".
\<close>

definition searchMemories ::
  "(real list \<Rightarrow> real list \<Rightarrow> real) \<Rightarrow> (string \<Rightarrow> real list option) \<Rightarrow> int
     \<Rightarrow> string \<Rightarrow> string \<Rightarrow> nat \<Rightarrow> VectorStore \<Rightarrow> error + SearchResult list" where
  "searchMemories vdist embedText now query uid limit vs =
     (if \<not> vs_initialized vs then Inl NotInitializedError
      else case embedText query of
             None \<Rightarrow> Inl SearchFailed
           | Some queryEmbedding \<Rightarrow>
               if \<not> available vs then Inl SearchFailed
               else Inr (formatSearchResults now
                      (collection_query vdist queryEmbedding limit (\<lambda>m. userId m = uid) (collection vs))))"

record Filters =
  f_userId :: "string option"
  f_category :: "MemoryCategory option"
  f_type :: "MemoryType option"
  timestampGte :: "int option"
  timestampLte :: "int option"

text \<open>A filter is used when it is truthy: an empty \<open>userId\<close> and a bound of 0 are not.\<close>

definition whereClause :: "Filters \<Rightarrow> Memory \<Rightarrow> bool" where
  "whereClause filters m =
     ((case f_userId filters of None \<Rightarrow> True | Some u \<Rightarrow> u = [] \<or> userId m = u)
      \<and> (case f_category filters of None \<Rightarrow> True | Some c \<Rightarrow> category m = c)
      \<and> (case f_type filters of None \<Rightarrow> True | Some t \<Rightarrow> memType m = t))"

definition truthyBound :: "int option \<Rightarrow> bool" where
  "truthyBound b = (case b of None \<Rightarrow> False | Some v \<Rightarrow> v \<noteq> 0)"

definition timestampInRange :: "Filters \<Rightarrow> SearchResult \<Rightarrow> bool" where
  "timestampInRange filters r =
     (if truthyBound (timestampGte filters) \<and> timestamp (memory r) < the (timestampGte filters) then False
      else if truthyBound (timestampLte filters) \<and> timestamp (memory r) > the (timestampLte filters) then False
      else True)"

definition searchByEmbedding ::
  "(real list \<Rightarrow> real list \<Rightarrow> real) \<Rightarrow> int \<Rightarrow> real list \<Rightarrow> Filters \<Rightarrow> nat \<Rightarrow> VectorStore
     \<Rightarrow> error + SearchResult list" where
  "searchByEmbedding vdist now emb filters limit vs =
     (if \<not> vs_initialized vs then Inl NotInitializedError
      else if \<not> available vs then Inl SearchByEmbeddingFailed
      else (let searchResults = formatSearchResults now
                  (collection_query vdist emb (limit * 2) (whereClause filters) (collection vs));
                searchResults' =
                  (if truthyBound (timestampGte filters) \<or> truthyBound (timestampLte filters)
                   then filter (timestampInRange filters) searchResults else searchResults)
            in Inr (take limit searchResults')))"

definition vectorStore_addMemory :: "Memory \<Rightarrow> VectorStore \<Rightarrow> error + VectorStore" where
  "vectorStore_addMemory m vs =
     (if \<not> vs_initialized vs then Inl NotInitializedError
      else if \<not> available vs then Inl AddMemoryFailed
      else Inr (vs\<lparr>collection := collection vs @ [m]\<rparr>))"

definition deleteMemory :: "nat \<Rightarrow> VectorStore \<Rightarrow> error + VectorStore" where
  "deleteMemory memoryId vs =
     (if \<not> vs_initialized vs then Inl NotInitializedError
      else if \<not> available vs then Inl DeleteMemoryFailed
      else Inr (vs\<lparr>collection := collection_delete memoryId (collection vs)\<rparr>))"

text \<open>\<open>getUserMemories\<close> catches every failure of the index and returns the empty list.\<close>

definition readUserMemory :: "int \<Rightarrow> Memory \<Rightarrow> Memory" where
  "readUserMemory now m =
     \<lparr> memId = memId m, userId = userId m, content = content m, embedding = None,
       memType = memType m, category = category m,
       timestamp = (if timestamp m = 0 then now else timestamp m),
       sessionId = Some (storedSessionId m),
       importance = (if importance m = 0 then 0.5 else importance m),
       relevance = None,
       metadata = Some (storedMetadata m) \<rparr>"

definition getUserMemories :: "int \<Rightarrow> string \<Rightarrow> VectorStore \<Rightarrow> error + Memory list" where
  "getUserMemories now uid vs =
     (if \<not> vs_initialized vs then Inl NotInitializedError
      else if \<not> available vs then Inr []
      else Inr (map (readUserMemory now) (collection_get (\<lambda>m. userId m = uid) (collection vs))))"
section \<open>Re-ranking (memoryManager.ts, reRankResults)\<close>

text \<open>\<open>x || d\<close> on an optional number: \<open>undefined\<close> and \<open>0\<close> are falsy and give the default.\<close>

definition num_or :: "real option \<Rightarrow> real \<Rightarrow> real" where
  "num_or x d = (case x of None \<Rightarrow> d | Some v \<Rightarrow> if v = 0 then d else v)"

definition oneYear :: int where
  "oneYear = 365 * 24 * 60 * 60 * 1000"

definition recencyScore :: "int \<Rightarrow> Memory \<Rightarrow> real" where
  "recencyScore now m = max 0 (1 - (real_of_int (now - timestamp m) / real_of_int oneYear))"

definition compositeScore :: "int \<Rightarrow> ReRankOptions \<Rightarrow> SearchResult \<Rightarrow> real" where
  "compositeScore now options result =
     (sr_relevance result * num_or (similarityWeight options) 0.5) +
     (importance (memory result) * num_or (importanceWeight options) 0.3) +
     (recencyScore now (memory result) * num_or (recencyWeight options) 0.2)"

text \<open>
  \<open>scored\<close> pairs every result with its composite score; \<open>Array.prototype.sort\<close> is a
  stable sort, here with the comparator \<open>b.compositeScore - a.compositeScore\<close>
  (descending), which is the stable insertion sort on the negated score.
\<close>

definition reRankResults :: "int \<Rightarrow> SearchResult list \<Rightarrow> ReRankOptions \<Rightarrow> (SearchResult \<times> real) list" where
  "reRankResults now results options =
     sort_key (\<lambda>s. - snd s) (map (\<lambda>result. (result, compositeScore now options result)) results)"

text \<open>The weights that \<open>searchRelevantMemories\<close> passes.\<close>

definition searchWeights :: ReRankOptions where
  "searchWeights = \<lparr> importanceWeight = Some 0.3, recencyWeight = Some 0.2, similarityWeight = Some 0.5 \<rparr>"
section \<open>Memory manager: insertion and retrieval (memory/memoryManager.ts)\<close>

record MemoryInput =
  in_userId :: string
  in_content :: string
  in_type :: MemoryType
  in_category :: MemoryCategory
  in_sessionId :: "string option"
  in_importance :: "real option"
  in_metadata :: "Metadata option"

text \<open>
  The manager state: its own \<open>initialized\<close> flag, the vector store singleton and the
  supply of fresh ids that stands for \<open>uuidv4()\<close>.
\<close>

record MemoryManager =
  initialized :: bool
  vectorStore :: VectorStore
  nextId :: nat

definition calculateImportance :: "MemoryCategory \<Rightarrow> MemoryType \<Rightarrow> real" where
  "calculateImportance c t =
     min (0.5 + (if c = BUG_REPORT then 0.3 else 0) + (if c = FEATURE_REQUEST then 0.2 else 0)
              + (if t = PREFERENCE then 0.2 else 0) + (if t = EVENT then 0.1 else 0)) 1.0"

text \<open>\<open>findSimilarMemories\<close> filters by \<open>userId\<close> only and turns every failure into \<open>[]\<close>.\<close>

definition findSimilarMemories ::
  "(real list \<Rightarrow> real list \<Rightarrow> real) \<Rightarrow> int \<Rightarrow> Memory \<Rightarrow> VectorStore \<Rightarrow> SearchResult list" where
  "findSimilarMemories vdist now m vs =
     (case searchByEmbedding vdist now (storedEmbedding m)
             \<lparr> f_userId = Some (userId m), f_category = None, f_type = None,
               timestampGte = None, timestampLte = None \<rparr> 5 vs of
        Inl e \<Rightarrow> []
      | Inr rs \<Rightarrow> rs)"

definition addMemory ::
  "(real list \<Rightarrow> real list \<Rightarrow> real) \<Rightarrow> (string \<Rightarrow> real list option) \<Rightarrow> int \<Rightarrow> MemoryInput
     \<Rightarrow> MemoryManager \<Rightarrow> (error + nat) \<times> MemoryManager" where
  "addMemory vdist embedText now inp mm =
     (if \<not> initialized mm then (Inl NotInitializedError, mm)
      else (let newId = nextId mm; mm1 = mm\<lparr>nextId := nextId mm + 1\<rparr>
            in case embedText (in_content inp) of
                 None \<Rightarrow> (Inl EmbeddingGenerationFailed, mm1)
               | Some emb \<Rightarrow>
                   (let imp = (case in_importance inp of Some i \<Rightarrow> i
                               | None \<Rightarrow> calculateImportance (in_category inp) (in_type inp));
                        vectorMemory = \<lparr> memId = newId, userId = in_userId inp, content = in_content inp,
                             embedding = Some emb, memType = in_type inp, category = in_category inp,
                             timestamp = now, sessionId = in_sessionId inp, importance = imp,
                             relevance = None, metadata = in_metadata inp \<rparr>;
                        duplicates = findSimilarMemories vdist now vectorMemory (vectorStore mm1)
                    in case duplicates of
                         d # ds \<Rightarrow>
                           if sr_relevance d > 0.95 then (Inr (memId (memory d)), mm1)
                           else (case vectorStore_addMemory vectorMemory (vectorStore mm1) of
                                   Inl e \<Rightarrow> (Inl e, mm1)
                                 | Inr vs' \<Rightarrow> (Inr newId, mm1\<lparr>vectorStore := vs'\<rparr>))
                       | [] \<Rightarrow>
                           (case vectorStore_addMemory vectorMemory (vectorStore mm1) of
                              Inl e \<Rightarrow> (Inl e, mm1)
                            | Inr vs' \<Rightarrow> (Inr newId, mm1\<lparr>vectorStore := vs'\<rparr>)))))"

record SearchOptions =
  so_limit :: "nat option"
  so_threshold :: "real option"
  so_includeRelated :: "bool option"
  so_category :: "MemoryCategory option"

text \<open>\<open>options?.limit || 5\<close>: a missing limit and the limit 0 both give 5.\<close>

definition limit_or :: "nat option \<Rightarrow> nat \<Rightarrow> nat" where
  "limit_or x d = (case x of None \<Rightarrow> d | Some v \<Rightarrow> if v = 0 then d else v)"

text \<open>
  \<open>ensureInitialized\<close> is called before the \<open>try\<close>; whatever \<open>searchMemories\<close> throws is
  caught, logged and answered with the empty list.
\<close>

definition searchRelevantMemories ::
  "(real list \<Rightarrow> real list \<Rightarrow> real) \<Rightarrow> (string \<Rightarrow> real list option) \<Rightarrow> int
     \<Rightarrow> string \<Rightarrow> string \<Rightarrow> SearchOptions option \<Rightarrow> MemoryManager \<Rightarrow> error + Memory list" where
  "searchRelevantMemories vdist embedText now uid query options mm =
     (if \<not> initialized mm then Inl NotInitializedError
      else (let limit = limit_or (case options of None \<Rightarrow> None | Some opts \<Rightarrow> so_limit opts) 5;
                threshold = num_or (case options of None \<Rightarrow> None | Some opts \<Rightarrow> so_threshold opts) 0.7
            in case searchMemories vdist embedText now query uid (limit * 2) (vectorStore mm) of
                 Inl e \<Rightarrow> Inr []
               | Inr results \<Rightarrow>
                   (let results1 = (case (case options of None \<Rightarrow> None | Some opts \<Rightarrow> so_category opts) of
                                      None \<Rightarrow> results
                                    | Some c \<Rightarrow> filter (\<lambda>r. category (memory r) = c) results);
                        results2 = filter (\<lambda>r. sr_relevance r \<ge> threshold) results1;
                        reRankedResults = reRankResults now results2
                           \<lparr> importanceWeight = Some 0.3, recencyWeight = Some 0.2, similarityWeight = Some 0.5 \<rparr>;
                        finalResults = take limit reRankedResults
                    in Inr (map (\<lambda>r. memory (fst r)) finalResults))))"

definition getMemoriesByCategory ::
  "(real list \<Rightarrow> real list \<Rightarrow> real) \<Rightarrow> (string \<Rightarrow> real list option) \<Rightarrow> int
     \<Rightarrow> string \<Rightarrow> MemoryCategory \<Rightarrow> MemoryManager \<Rightarrow> error + Memory list" where
  "getMemoriesByCategory vdist embedText now uid c mm =
     (if \<not> initialized mm then Inl NotInitializedError
      else searchRelevantMemories vdist embedText now uid []
             (Some \<lparr> so_limit = Some 20, so_threshold = Some 0, so_includeRelated = None, so_category = Some c \<rparr>) mm)"
section \<open>Fact extraction (memory/memoryManager.ts)\<close>

record Interaction =
  i_userId :: string
  userMessage :: string
  assistantMessage :: string
  i_sessionId :: string
  i_timestamp :: int

record ExtractedFact =
  fact_content :: string
  fact_importance :: real
  fact_type :: MemoryType
  fact_category :: MemoryCategory
  fact_confidence :: "real option"

text \<open>What \<open>JSON.parse\<close> can return. A property read on an object is the first binding of the key.\<close>

datatype json = JNull | JBool bool | JNumber real | JString string
  | JArray "json list" | JObject "(string \<times> json) list"

definition property :: "json \<Rightarrow> string \<Rightarrow> json option" where
  "property j k = (case j of JObject kvs \<Rightarrow> map_of kvs k | _ \<Rightarrow> None)"

definition validTypes :: "(string \<times> MemoryType) list" where
  "validTypes = [(''conversation'', CONVERSATION), (''extracted_fact'', EXTRACTED_FACT),
     (''preference'', PREFERENCE), (''sentiment'', SENTIMENT), (''event'', EVENT)]"

definition validCategories :: "(string \<times> MemoryCategory) list" where
  "validCategories = [(''bug_report'', BUG_REPORT), (''feature_request'', FEATURE_REQUEST),
     (''question'', QUESTION), (''feedback'', FEEDBACK), (''technical'', TECHNICAL), (''general'', GENERAL)]"

text \<open>
  \<open>fact.type?.toLowerCase()\<close>: \<open>undefined\<close> and \<open>null\<close> give \<open>undefined\<close>, a string is
  lowered, and on any other value \<open>toLowerCase\<close> is not a function: a TypeError is thrown.
\<close>

definition lowerProperty :: "json option \<Rightarrow> error + string option" where
  "lowerProperty v =
     (case v of None \<Rightarrow> Inr None
      | Some JNull \<Rightarrow> Inr None
      | Some (JString s) \<Rightarrow> Inr (Some (toLowerCase s))
      | Some _ \<Rightarrow> Inl TypeError)"

text \<open>
  \<open>parseFloat\<close> of a property: a number is itself; \<open>undefined\<close>, \<open>null\<close>, booleans and
  objects give \<open>NaN\<close> (\<open>None\<close>); strings and arrays go through their text, which is left
  to the parameter \<open>parseFloatText\<close>. \<open>x || d\<close> replaces \<open>NaN\<close> and 0 by the default.
\<close>

definition parseFloat :: "(json \<Rightarrow> real option) \<Rightarrow> json option \<Rightarrow> real option" where
  "parseFloat parseFloatText v =
     (case v of None \<Rightarrow> None
      | Some JNull \<Rightarrow> None
      | Some (JBool b) \<Rightarrow> None
      | Some (JNumber r) \<Rightarrow> Some r
      | Some (JObject kvs) \<Rightarrow> None
      | Some j \<Rightarrow> parseFloatText j)"

definition clamp01 :: "real \<Rightarrow> real" where
  "clamp01 x = min (max x 0) 1"

definition validateExtractedFact :: "(json \<Rightarrow> real option) \<Rightarrow> json \<Rightarrow> error + ExtractedFact option" where
  "validateExtractedFact parseFloatText rawFact =
     (case rawFact of
        JNull \<Rightarrow> Inr None
      | JBool b \<Rightarrow> Inr None
      | JNumber r \<Rightarrow> Inr None
      | JString s \<Rightarrow> Inr None
      | _ \<Rightarrow>
        (case property rawFact ''content'' of
           Some (JString c) \<Rightarrow>
             if c = [] \<or> length (trim c) = 0 then Inr None
             else if length c > 500 then Inr None
             else (case lowerProperty (property rawFact ''type'') of
                     Inl e \<Rightarrow> Inl e
                   | Inr t \<Rightarrow>
                    (case lowerProperty (property rawFact ''category'') of
                       Inl e \<Rightarrow> Inl e
                     | Inr cat \<Rightarrow>
                        (let type' = (case (case t of None \<Rightarrow> None | Some ts \<Rightarrow> map_of validTypes ts) of
                                        None \<Rightarrow> EXTRACTED_FACT | Some ty \<Rightarrow> ty);
                             category' = (case (case cat of None \<Rightarrow> None | Some cs \<Rightarrow> map_of validCategories cs) of
                                            None \<Rightarrow> GENERAL | Some ca \<Rightarrow> ca);
                             imp = clamp01 (num_or (parseFloat parseFloatText (property rawFact ''importance'')) 0.5);
                             conf = clamp01 (num_or (parseFloat parseFloatText (property rawFact ''confidence'')) 0.7)
                         in if conf < 0.5 then Inr None
                            else Inr (Some \<lparr> fact_content = trim c, fact_importance = imp, fact_type = type',
                                              fact_category = category', fact_confidence = Some conf \<rparr>))))
         | _ \<Rightarrow> Inr None))"

text \<open>The deterministic keyword extractor.\<close>

definition rememberWhat :: "string \<Rightarrow> string" where
  "rememberWhat msg =
     (let lower = toLowerCase msg
      in if includesStr lower ''my name is'' then
           (case matchLetters ''my name is '' msg of
              Some n \<Rightarrow> ''Customer's name is '' @ n | None \<Rightarrow> msg)
         else if includesStr lower ''call me'' then
           (case matchLetters ''call me '' msg of
              Some n \<Rightarrow> ''Customer prefers to be called '' @ n | None \<Rightarrow> msg)
         else if includesStr lower ''i am '' then
           (case matchLetters ''i am '' msg of
              Some n \<Rightarrow> if toLowerCase n \<notin> set [''a'', ''the'', ''an'', ''having'', ''getting'']
                        then ''Customer is '' @ n else msg
            | None \<Rightarrow> msg)
         else msg)"

definition extractKeyFactsKeywordBased :: "Interaction \<Rightarrow> ExtractedFact list" where
  "extractKeyFactsKeywordBased interaction =
     (let msg = userMessage interaction; lower = toLowerCase msg
      in (if includesStr lower ''remember'' \<or> includesStr lower ''my name is''
             \<or> includesStr lower ''call me'' \<or> includesStr lower ''i am ''
          then [\<lparr> fact_content = rememberWhat msg, fact_importance = 0.95, fact_type = PREFERENCE,
                   fact_category = GENERAL, fact_confidence = None \<rparr>] else [])
       @ (if includesStr lower ''broken'' \<or> includesStr lower ''not working''
             \<or> includesStr lower ''error'' \<or> includesStr lower ''bug''
          then [\<lparr> fact_content = ''Customer reported: '' @ msg, fact_importance = 0.8, fact_type = EVENT,
                   fact_category = BUG_REPORT, fact_confidence = None \<rparr>] else [])
       @ (if includesStr lower ''want'' \<or> includesStr lower ''need''
             \<or> includesStr lower ''would like'' \<or> includesStr lower ''feature''
          then [\<lparr> fact_content = ''Customer requested: '' @ msg, fact_importance = 0.7, fact_type = EVENT,
                   fact_category = FEATURE_REQUEST, fact_confidence = None \<rparr>] else [])
       @ (if includesStr lower ''prefer'' \<or> includesStr lower ''like to''
             \<or> includesStr lower ''developer'' \<or> includesStr lower ''technical''
          then [\<lparr> fact_content = ''Customer preference: '' @ msg, fact_importance = 0.6, fact_type = PREFERENCE,
                   fact_category = GENERAL, fact_confidence = None \<rparr>] else [])
       @ (if includesStr lower ''company'' \<or> includesStr lower ''organization''
             \<or> includesStr lower ''work for'' \<or> includesStr lower ''work at''
          then [\<lparr> fact_content = ''Customer info: '' @ msg, fact_importance = 0.7, fact_type = PREFERENCE,
                   fact_category = GENERAL, fact_confidence = None \<rparr>] else []))"

text \<open>
  Stripping of Markdown fences: \<open>replace(/```json\n?/g, '')\<close> removes every occurrence of
  the fence with the newline after it, \<open>replace(/```\n?$/g, '')\<close> a fence at the very end.
\<close>

function removeAll :: "string \<Rightarrow> string \<Rightarrow> string" where
  "removeAll pat [] = []"
| "removeAll pat (c # s) =
     (if pat \<noteq> [] \<and> startsWith (c # s) pat
      then removeAll pat (case drop (length pat) (c # s) of
                            [] \<Rightarrow> []
                          | n # r \<Rightarrow> if n = newline then r else n # r)
      else c # removeAll pat s)"
  by pat_completeness auto
termination
proof (relation "measure (\<lambda>(pat, s). length s)")
  show "wf (measure (\<lambda>(pat, s). length s))" by simp
next
  fix pat :: string and c s
  assume "pat \<noteq> [] \<and> startsWith (c # s) pat"
  then have "length (drop (length pat) (c # s)) < length (c # s)" by (cases pat) auto
  moreover have "length (case drop (length pat) (c # s) of [] \<Rightarrow> [] | n # r \<Rightarrow> if n = newline then r else n # r)
                   \<le> length (drop (length pat) (c # s))"
    by (cases "drop (length pat) (c # s)") auto
  ultimately show "((pat, case drop (length pat) (c # s) of [] \<Rightarrow> [] | n # r \<Rightarrow> if n = newline then r else n # r),
                    (pat, c # s)) \<in> measure (\<lambda>(pat, s). length s)"
    by simp
next
  fix pat :: string and c s
  show "((pat, s), (pat, c # s)) \<in> measure (\<lambda>(pat, s). length s)" by simp
qed

definition removeFinalFence :: "string \<Rightarrow> string" where
  "removeFinalFence s =
     (if length s \<ge> 4 \<and> drop (length s - 4) s = ''```'' @ [newline] then take (length s - 4) s
      else if length s \<ge> 3 \<and> drop (length s - 3) s = ''```'' then take (length s - 3) s
      else s)"

definition stripFences :: "string \<Rightarrow> string" where
  "stripFences jsonText =
     (if startsWith jsonText ''```json'' then removeFinalFence (removeAll ''```json'' jsonText)
      else if startsWith jsonText ''```'' then removeFinalFence (removeAll ''```'' jsonText)
      else jsonText)"

text \<open>
  \<open>rawFacts.map(validateExtractedFact)\<close>: the first fact on which validation throws aborts
  the whole map.
\<close>

fun validateAll :: "(json \<Rightarrow> real option) \<Rightarrow> json list \<Rightarrow> error + ExtractedFact option list" where
  "validateAll parseFloatText [] = Inr []"
| "validateAll parseFloatText (rawFact # rest) =
     (case validateExtractedFact parseFloatText rawFact of
        Inl e \<Rightarrow> Inl e
      | Inr v \<Rightarrow> (case validateAll parseFloatText rest of
                    Inl e \<Rightarrow> Inl e
                  | Inr vs \<Rightarrow> Inr (v # vs)))"

text \<open>
  \<open>chat\<close> is the outcome of \<open>ollamaClient.chat\<close> on the extraction prompt (\<open>Inl\<close>: the call
  throws) and \<open>jsonParse\<close> is \<open>JSON.parse\<close> (\<open>None\<close>: a SyntaxError). Everything thrown
  inside the \<open>try\<close> lands in the \<open>catch\<close>, which returns the keyword extraction.
\<close>

definition extractKeyFacts ::
  "(string \<Rightarrow> json option) \<Rightarrow> (json \<Rightarrow> real option) \<Rightarrow> error + string \<Rightarrow> Interaction
     \<Rightarrow> ExtractedFact list" where
  "extractKeyFacts jsonParse parseFloatText chat interaction =
     (case chat of
        Inl e \<Rightarrow> extractKeyFactsKeywordBased interaction
      | Inr response \<Rightarrow>
          (case jsonParse (stripFences (trim response)) of
             None \<Rightarrow> extractKeyFactsKeywordBased interaction
           | Some (JArray rawFacts) \<Rightarrow>
               (case validateAll parseFloatText rawFacts of
                  Inl e \<Rightarrow> extractKeyFactsKeywordBased interaction
                | Inr validated \<Rightarrow> map the (filter (\<lambda>f. f \<noteq> None) validated))
           | Some _ \<Rightarrow> extractKeyFactsKeywordBased interaction))"
section \<open>Conflict resolution (memory/memoryManager.ts)\<close>

text \<open>
  The regular expressions of \<open>detectFactType\<close>, as scans of the lowered text. A word
  boundary \<open>\b\<close> lies between a word character and a non-word character or an end of the
  text; \<open>.\<close> matches any character but a line terminator. \<open>prev\<close> is the character before
  the current position.
\<close>

definition wordHere :: "char option \<Rightarrow> string \<Rightarrow> string \<Rightarrow> bool" where
  "wordHere prev w s =
     (startsWith s w
      \<and> \<not> (case prev of None \<Rightarrow> False | Some p \<Rightarrow> isWordChar p)
      \<and> (case drop (length w) s of [] \<Rightarrow> True | n # r \<Rightarrow> \<not> isWordChar n))"

fun isAfter :: "char option \<Rightarrow> string \<Rightarrow> bool" where
  "isAfter prev [] = False"
| "isAfter prev (c # s) = (wordHere prev ''is'' (c # s) \<or> (\<not> isLineTerminator c \<and> isAfter (Some c) s))"

text \<open>\<open>/\bname\b.*\bis\b/\<close>\<close>

fun nameThenIs :: "char option \<Rightarrow> string \<Rightarrow> bool" where
  "nameThenIs prev [] = False"
| "nameThenIs prev (c # s) =
     ((wordHere prev ''name'' (c # s) \<and> isAfter (Some (CHR ''e'')) (drop 4 (c # s)))
      \<or> nameThenIs (Some c) s)"

text \<open>\<open>/email.*@/\<close>\<close>

fun atAfter :: "string \<Rightarrow> bool" where
  "atAfter [] = False"
| "atAfter (c # s) = (c = CHR ''@'' \<or> (\<not> isLineTerminator c \<and> atAfter s))"

fun emailThenAt :: "string \<Rightarrow> bool" where
  "emailThenAt [] = False"
| "emailThenAt (c # s) = ((startsWith (c # s) ''email'' \<and> atAfter (drop 5 (c # s))) \<or> emailThenAt s)"

text \<open>\<open>/\d{3}[-.\s]?\d{3,4}/\<close>\<close>

definition threeDigits :: "string \<Rightarrow> bool" where
  "threeDigits s = (case s of a # b # c # r \<Rightarrow> isDigit a \<and> isDigit b \<and> isDigit c | _ \<Rightarrow> False)"

definition phoneHere :: "string \<Rightarrow> bool" where
  "phoneHere s =
     (threeDigits s
      \<and> (threeDigits (drop 3 s)
          \<or> (case drop 3 s of [] \<Rightarrow> False
              | x # r \<Rightarrow> (x = CHR ''-'' \<or> x = CHR ''.'' \<or> isSpace x) \<and> threeDigits r)))"

fun hasPhone :: "string \<Rightarrow> bool" where
  "hasPhone [] = False"
| "hasPhone (c # s) = (phoneHere (c # s) \<or> hasPhone s)"

definition detectFactType :: "string \<Rightarrow> string option" where
  "detectFactType text =
     (let lower = toLowerCase text
      in if includesStr lower ''user's name is'' \<or> includesStr lower ''user is called''
            \<or> includesStr lower ''prefers to be called'' \<or> nameThenIs None lower
         then Some ''name''
         else if includesStr lower ''user's email'' \<or> includesStr lower ''email is''
            \<or> emailThenAt lower
         then Some ''email''
         else if includesStr lower ''user's phone'' \<or> includesStr lower ''phone is''
            \<or> (includesStr lower ''call'' \<and> hasPhone lower)
         then Some ''phone''
         else if includesStr lower ''works at'' \<or> includesStr lower ''employed by''
            \<or> includesStr lower ''company is''
         then Some ''company''
         else if includesStr lower ''lives in'' \<or> includesStr lower ''from''
            \<or> includesStr lower ''located in''
         then Some ''location''
         else None)"

text \<open>The scan of \<open>findConflictingMemory\<close> over the user's memories, in the order of the store.\<close>

fun scanConflict :: "string \<Rightarrow> string \<Rightarrow> Memory list \<Rightarrow> Memory option" where
  "scanConflict factType newContent [] = None"
| "scanConflict factType newContent (m # rest) =
     (if memType m = CONVERSATION then scanConflict factType newContent rest
      else if detectFactType (content m) = Some factType
              \<and> toLowerCase (content m) \<noteq> toLowerCase newContent
           then Some m
           else scanConflict factType newContent rest)"

definition findConflictingMemory ::
  "int \<Rightarrow> string \<Rightarrow> ExtractedFact \<Rightarrow> VectorStore \<Rightarrow> error + Memory option" where
  "findConflictingMemory now uid newFact vs =
     (if fact_type newFact \<notin> set [PREFERENCE, EXTRACTED_FACT] then Inr None
      else case detectFactType (fact_content newFact) of
             None \<Rightarrow> Inr None
           | Some factType \<Rightarrow>
               (case getUserMemories now uid vs of
                  Inl e \<Rightarrow> Inl e
                | Inr existingMemories \<Rightarrow> Inr (scanConflict factType (fact_content newFact) existingMemories)))"

text \<open>
  The body of the loop of \<open>extractAndStoreKeyFacts\<close> for one fact, and the loop; the first
  error ends it. \<open>addMemory\<close> ignores the \<open>timestamp\<close> it is passed.
\<close>

definition factInput :: "Interaction \<Rightarrow> ExtractedFact \<Rightarrow> nat option \<Rightarrow> int option \<Rightarrow> MemoryInput" where
  "factInput interaction newFact replacedId replacedTime =
     \<lparr> in_userId = i_userId interaction, in_content = fact_content newFact, in_type = fact_type newFact,
       in_category = fact_category newFact, in_sessionId = Some (i_sessionId interaction),
       in_importance = Some (fact_importance newFact),
       in_metadata = Some \<lparr> extractedFrom = Some ''llm'',
                              originalMessage = Some (take 100 (userMessage interaction)),
                              confidence = fact_confidence newFact,
                              replacedMemoryId = replacedId, replacedAt = replacedTime \<rparr> \<rparr>"

definition storeFact ::
  "(real list \<Rightarrow> real list \<Rightarrow> real) \<Rightarrow> (string \<Rightarrow> real list option) \<Rightarrow> int \<Rightarrow> Interaction
     \<Rightarrow> ExtractedFact \<Rightarrow> MemoryManager \<Rightarrow> (error + nat) \<times> MemoryManager" where
  "storeFact vdist embedText now interaction newFact mm =
     (case findConflictingMemory now (i_userId interaction) newFact (vectorStore mm) of
        Inl e \<Rightarrow> (Inl e, mm)
      | Inr (Some conflictingMemory) \<Rightarrow>
          (case deleteMemory (memId conflictingMemory) (vectorStore mm) of
             Inl e \<Rightarrow> (Inl e, mm)
           | Inr vs' \<Rightarrow>
               addMemory vdist embedText now
                 (factInput interaction newFact (Some (memId conflictingMemory)) (Some now))
                 (mm\<lparr>vectorStore := vs'\<rparr>))
      | Inr None \<Rightarrow>
          addMemory vdist embedText now (factInput interaction newFact None None) mm)"

fun storeFacts ::
  "(real list \<Rightarrow> real list \<Rightarrow> real) \<Rightarrow> (string \<Rightarrow> real list option) \<Rightarrow> int \<Rightarrow> Interaction
     \<Rightarrow> ExtractedFact list \<Rightarrow> MemoryManager \<Rightarrow> (error + unit) \<times> MemoryManager" where
  "storeFacts vdist embedText now interaction [] mm = (Inr (), mm)"
| "storeFacts vdist embedText now interaction (newFact # rest) mm =
     (case storeFact vdist embedText now interaction newFact mm of
        (Inl e, mm') \<Rightarrow> (Inl e, mm')
      | (Inr i, mm') \<Rightarrow> storeFacts vdist embedText now interaction rest mm')"

definition extractAndStoreKeyFacts ::
  "(real list \<Rightarrow> real list \<Rightarrow> real) \<Rightarrow> (string \<Rightarrow> real list option) \<Rightarrow> (string \<Rightarrow> json option)
     \<Rightarrow> (json \<Rightarrow> real option) \<Rightarrow> error + string \<Rightarrow> int \<Rightarrow> Interaction \<Rightarrow> MemoryManager
     \<Rightarrow> (error + unit) \<times> MemoryManager" where
  "extractAndStoreKeyFacts vdist embedText jsonParse parseFloatText chat now interaction mm =
     storeFacts vdist embedText now interaction
       (extractKeyFacts jsonParse parseFloatText chat interaction) mm"
section \<open>Vocabulary for the properties of context assembly\<close>

text \<open>
  A truncation marker is recognised by its fixed prefix; \<open>pieceTokens\<close> adds up the
  per-piece estimates of everything in \<open>sections\<close> that is not a marker, which is what the
  running counter \<open>currentTokens\<close> accounts for. \<open>linesShape\<close> describes the outcome of
  the item loop started at index \<open>i\<close>: the lines \<open>i..<k\<close> were emitted and fit, and the
  loop stopped at \<open>k\<close> with a marker exactly when line \<open>k\<close> did not fit.
\<close>

definition isTruncationMarker :: "string \<Rightarrow> bool" where
  "isTruncationMarker s = (take 5 s = ''... ('')"

definition pieceTokens :: "string list \<Rightarrow> nat" where
  "pieceTokens sections = sum_list (map estimateTokens (filter (\<lambda>s. \<not> isTruncationMarker s) sections))"



section \<open>Vocabulary for the properties of the cache\<close>

text \<open>
  A sequence of \<open>generateEmbedding\<close> calls, one after the other, each with the cache on;
  \<open>firstSeen\<close> lists texts in the order of their first request.
\<close>

definition embedSequence ::
  "(string \<Rightarrow> real list option) \<Rightarrow> (string \<Rightarrow> string) \<Rightarrow> string list \<Rightarrow> OllamaClient \<Rightarrow> OllamaClient" where
  "embedSequence embeddings getCacheKey texts c =
     foldl (\<lambda>c t. snd (generateEmbedding embeddings getCacheKey t True c)) c texts"

definition firstSeen :: "string list \<Rightarrow> string list \<Rightarrow> string list" where
  "firstSeen acc texts = foldl (\<lambda>acc t. if t \<in> set acc then acc else acc @ [t]) acc texts"

definition cacheHolds ::
  "(string \<Rightarrow> real list option) \<Rightarrow> (string \<Rightarrow> string) \<Rightarrow> string list \<Rightarrow> OllamaClient \<Rightarrow> bool" where
  "cacheHolds embeddings getCacheKey texts c =
     (embeddingCache c = map (\<lambda>t. (getCacheKey t, the (embeddings t))) texts)"
section \<open>Vocabulary for the properties of fact extraction\<close>

definition isArray :: "json \<Rightarrow> bool" where
  "isArray j = (case j of JArray xs \<Rightarrow> True | _ \<Rightarrow> False)"
section \<open>Vocabulary for the properties of insertion and conflict resolution\<close>

text \<open>
  \<open>ready\<close>: both components initialised and the index answering. \<open>newRecord\<close> is the
  record that \<open>addMemory\<close> builds for an input, a fresh id and an embedding.
  \<open>conflictsWith\<close> is the test of the conflict scan for one stored memory.
\<close>

definition ready :: "MemoryManager \<Rightarrow> bool" where
  "ready mm = (initialized mm \<and> vs_initialized (vectorStore mm) \<and> available (vectorStore mm))"

definition newRecord :: "int \<Rightarrow> MemoryInput \<Rightarrow> nat \<Rightarrow> real list \<Rightarrow> Memory" where
  "newRecord now inp i e =
     \<lparr> memId = i, userId = in_userId inp, content = in_content inp, embedding = Some e,
       memType = in_type inp, category = in_category inp, timestamp = now,
       sessionId = in_sessionId inp,
       importance = (case in_importance inp of Some v \<Rightarrow> v
                     | None \<Rightarrow> calculateImportance (in_category inp) (in_type inp)),
       relevance = None, metadata = in_metadata inp \<rparr>"



text \<open>A small concrete result, used to run the definitions on explicit inputs.\<close>

definition exampleMemory :: "nat \<Rightarrow> int \<Rightarrow> Memory" where
  "exampleMemory i t = \<lparr> memId = i, userId = ''u1'', content = ''c'', embedding = None,
     memType = PREFERENCE, category = GENERAL, timestamp = t, sessionId = None,
     importance = 0.5, relevance = Some 0.8, metadata = None \<rparr>"

definition exampleResult :: "nat \<Rightarrow> int \<Rightarrow> SearchResult" where
  "exampleResult i t = \<lparr> memory = exampleMemory i t, distance = 0.2, sr_relevance = 0.8 \<rparr>"

text \<open>A client of capacity 2 and a provider that always answers.\<close>

definition smallClient :: OllamaClient where
  "smallClient = newOllamaClient\<lparr>MAX_CACHE_SIZE := 2\<rparr>"

definition constEmbeddings :: "string \<Rightarrow> real list option" where
  "constEmbeddings text = Some [real (length text)]"
text \<open>A manager over a store of two records, with an index distance and embedders to run it.\<close>

definition storedMemory :: "nat \<Rightarrow> real list \<Rightarrow> Memory" where
  "storedMemory i e = (exampleMemory i 1000)\<lparr>embedding := Some e\<rparr>"

definition exampleDist :: "real list \<Rightarrow> real list \<Rightarrow> real" where
  "exampleDist q e = (if e = q then 0 else if e = [1] then 1 / 4 else 1 / 2)"

definition exampleManager :: MemoryManager where
  "exampleManager = \<lparr> initialized = True,
     vectorStore = \<lparr> vs_initialized = True, available = True,
                     collection = [storedMemory 11 [1], storedMemory 12 [2]] \<rparr>,
     nextId = 13 \<rparr>"

definition exampleEmbed :: "string \<Rightarrow> real list option" where
  "exampleEmbed text = Some [real (length text)]"

definition failingEmbed :: "string \<Rightarrow> real list option" where
  "failingEmbed text = None"

definition exampleInput :: MemoryInput where
  "exampleInput = \<lparr> in_userId = ''u1'', in_content = ''hello'', in_type = PREFERENCE,
     in_category = GENERAL, in_sessionId = None, in_importance = None, in_metadata = None \<rparr>"
text \<open>An interaction, raw facts as the chat model may return them, and stand-ins for the parsers.\<close>

definition exampleInteraction :: "string \<Rightarrow> Interaction" where
  "exampleInteraction msg = \<lparr> i_userId = ''u1'', userMessage = msg, assistantMessage = ''ok'',
     i_sessionId = ''s1'', i_timestamp = 1000 \<rparr>"

definition noParseFloatText :: "json \<Rightarrow> real option" where
  "noParseFloatText j = None"

definition zeroConfidenceFact :: json where
  "zeroConfidenceFact = JObject [(''content'', JString ''User likes tea''), (''confidence'', JNumber 0)]"

definition numericTypeFact :: json where
  "numericTypeFact = JObject [(''content'', JString ''User likes tea''), (''type'', JNumber 5)]"

definition goodFact :: json where
  "goodFact = JObject [(''content'', JString ''User works at Acme''), (''confidence'', JNumber 0.9)]"


definition parsesTo :: "json \<Rightarrow> string \<Rightarrow> json option" where
  "parsesTo j text = Some j"

definition parseFails :: "string \<Rightarrow> json option" where
  "parseFails text = None"

text \<open>An input of type event with the content of a stored preference.\<close>

definition eventInput :: MemoryInput where
  "eventInput = \<lparr> in_userId = ''u1'', in_content = ''c'', in_type = EVENT,
     in_category = GENERAL, in_sessionId = None, in_importance = None, in_metadata = None \<rparr>"

section \<open>Properties of context assembly\<close>





lemma pieceTokens_append: "pieceTokens (xs @ ys) = pieceTokens xs + pieceTokens ys"
  by (simp add: pieceTokens_def)















lemma addSection_skip:
  "items = [] \<Longrightarrow> addSection now maxTokens title items maxItems charLimit st = st"
  by (cases st) (simp add: addSection_def)

lemma addSection_header_over:
  "items \<noteq> [] \<Longrightarrow> int (currentTokens + estimateTokens (newline # title)) \<ge> maxTokens \<Longrightarrow>
   addSection now maxTokens title items maxItems charLimit (sections, currentTokens)
     = (sections, currentTokens + estimateTokens (newline # title))"
  by (simp add: addSection_def Let_def)












section \<open>Properties of the embedding cache\<close>

lemma map_of_cacheHolds:
  assumes "cacheHolds embeddings getCacheKey acc c" and "inj_on getCacheKey (insert t (set acc))"
  shows "map_of (embeddingCache c) (getCacheKey t) = (if t \<in> set acc then Some (the (embeddings t)) else None)"
proof -
  have "map_of (map (\<lambda>t. (getCacheKey t, the (embeddings t))) acc) (getCacheKey t)
          = (if t \<in> set acc then Some (the (embeddings t)) else None)"
    using assms(2)
  proof (induction acc)
    case Nil
    then show ?case by simp
  next
    case (Cons a acc)
    have inj: "inj_on getCacheKey (insert t (set acc))"
      using Cons.prems by (auto simp: inj_on_def)
    have "getCacheKey a = getCacheKey t \<longleftrightarrow> a = t"
      using Cons.prems by (auto simp: inj_on_def)
    then show ?case using Cons.IH [OF inj] by auto
  qed
  then show ?thesis using assms(1) by (simp add: cacheHolds_def)
qed

text \<open>
  The cache is transparent: when it holds the provider's vectors for the texts \<open>acc\<close>, a
  call returns what the provider returns for the text, hit or miss. This is what lets the
  store and the manager see \<open>generateEmbedding\<close> as a function of the text.
\<close>

lemma generateEmbedding_transparent:
  assumes "cacheHolds embeddings getCacheKey acc c" and "inj_on getCacheKey (insert t (set acc))"
    and "t \<in> set acc \<longrightarrow> embeddings t \<noteq> None"
  shows "fst (generateEmbedding embeddings getCacheKey t True c)
           = (case embeddings t of None \<Rightarrow> Inl EmbeddingGenerationFailed | Some e \<Rightarrow> Inr e)"
proof (cases "t \<in> set acc")
  case True
  then obtain e where "embeddings t = Some e" using assms(3) by auto
  then show ?thesis
    using map_of_cacheHolds [OF assms(1,2)] True
    by (simp add: generateEmbedding_def Let_def)
next
  case False
  then show ?thesis
    using map_of_cacheHolds [OF assms(1,2)]
    by (simp add: generateEmbedding_def Let_def split: option.splits)
qed

lemma map_set_absent:
  "k \<notin> fst ` set m \<Longrightarrow> map_set m k v = m @ [(k, v)]"
  by (induction m) auto

lemma generateEmbedding_hit:
  assumes "cacheHolds embeddings getCacheKey acc c" and "inj_on getCacheKey (insert t (set acc))"
    and "t \<in> set acc"
  shows "cacheHolds embeddings getCacheKey acc (snd (generateEmbedding embeddings getCacheKey t True c))"
    and "MAX_CACHE_SIZE (snd (generateEmbedding embeddings getCacheKey t True c)) = MAX_CACHE_SIZE c"
  using map_of_cacheHolds [OF assms(1,2)] assms(1,3)
  by (simp_all add: generateEmbedding_def Let_def cacheHolds_def)

lemma generateEmbedding_miss_room:
  assumes "cacheHolds embeddings getCacheKey acc c" and "inj_on getCacheKey (insert t (set acc))"
    and "t \<notin> set acc" and "embeddings t \<noteq> None" and "length acc < MAX_CACHE_SIZE c"
  shows "cacheHolds embeddings getCacheKey (acc @ [t]) (snd (generateEmbedding embeddings getCacheKey t True c))"
    and "MAX_CACHE_SIZE (snd (generateEmbedding embeddings getCacheKey t True c)) = MAX_CACHE_SIZE c"
proof -
  have absent: "getCacheKey t \<notin> fst ` set (embeddingCache c)"
    using assms(1,2,3) by (auto simp: cacheHolds_def inj_on_def)
  obtain e where e: "embeddings t = Some e" using assms(4) by auto
  have len: "length (embeddingCache c) = length acc" using assms(1) by (simp add: cacheHolds_def)
  show "cacheHolds embeddings getCacheKey (acc @ [t]) (snd (generateEmbedding embeddings getCacheKey t True c))"
    using map_of_cacheHolds [OF assms(1,2)] assms(1,3,5) e len map_set_absent [OF absent]
    by (simp add: generateEmbedding_def Let_def cacheHolds_def cacheEmbedding_def)
  show "MAX_CACHE_SIZE (snd (generateEmbedding embeddings getCacheKey t True c)) = MAX_CACHE_SIZE c"
    using map_of_cacheHolds [OF assms(1,2)] assms(3) e
    by (simp add: generateEmbedding_def Let_def cacheEmbedding_def)
qed

lemma generateEmbedding_miss_full:
  assumes "cacheHolds embeddings getCacheKey (a # acc) c" and "inj_on getCacheKey (insert t (set (a # acc)))"
    and "t \<notin> set (a # acc)" and "embeddings t \<noteq> None" and "length (a # acc) \<ge> MAX_CACHE_SIZE c"
    and "distinct (a # acc)"
  shows "cacheHolds embeddings getCacheKey (acc @ [t]) (snd (generateEmbedding embeddings getCacheKey t True c))"
proof -
  obtain e where e: "embeddings t = Some e" using assms(4) by auto
  have cache: "embeddingCache c = (getCacheKey a, the (embeddings a)) # map (\<lambda>t. (getCacheKey t, the (embeddings t))) acc"
    using assms(1) by (simp add: cacheHolds_def)
  have del: "map_delete (embeddingCache c) (getCacheKey a) = map (\<lambda>t. (getCacheKey t, the (embeddings t))) acc"
  proof -
    have "\<forall>x \<in> set acc. getCacheKey x \<noteq> getCacheKey a"
      using assms(2,6) by (auto simp: inj_on_def)
    then have "filter (\<lambda>p. fst p \<noteq> getCacheKey a) (map (\<lambda>t. (getCacheKey t, the (embeddings t))) acc)
                 = map (\<lambda>t. (getCacheKey t, the (embeddings t))) acc"
      by (induction acc) auto
    then show ?thesis by (simp add: map_delete_def cache)
  qed
  have absent: "getCacheKey t \<notin> fst ` set (map (\<lambda>t. (getCacheKey t, the (embeddings t))) acc)"
    using assms(2,3) by (auto simp: inj_on_def)
  have len: "length (embeddingCache c) = length (a # acc)" using cache by simp
  show ?thesis
    using map_of_cacheHolds [OF assms(1,2)] assms(3,5) e len del map_set_absent [OF absent]
    by (simp add: generateEmbedding_def Let_def cacheHolds_def cacheEmbedding_def cache)
qed

lemma firstSeen_Cons:
  "firstSeen acc (x # xs) = firstSeen (if x \<in> set acc then acc else acc @ [x]) xs"
  by (simp add: firstSeen_def)

lemma firstSeen_prefix: "\<exists>ys. firstSeen acc xs = acc @ ys"
proof (induction xs arbitrary: acc)
  case Nil
  then show ?case by (simp add: firstSeen_def)
next
  case (Cons x xs)
  from Cons [of "if x \<in> set acc then acc else acc @ [x]"]
  show ?case by (auto simp: firstSeen_Cons)
qed

lemma firstSeen_hd: "xs \<noteq> [] \<Longrightarrow> \<exists>ys. firstSeen [] xs = hd xs # ys"
proof -
  assume "xs \<noteq> []"
  then obtain x rest where xs: "xs = x # rest" by (cases xs) auto
  from firstSeen_prefix [of "[x]" rest] xs show ?thesis by (auto simp: firstSeen_Cons)
qed

lemma embedSequence_Cons:
  "embedSequence embeddings getCacheKey (x # xs) c
     = embedSequence embeddings getCacheKey xs (snd (generateEmbedding embeddings getCacheKey x True c))"
  by (simp add: embedSequence_def)

lemma embedSequence_snoc:
  "embedSequence embeddings getCacheKey (xs @ [x]) c
     = snd (generateEmbedding embeddings getCacheKey x True (embedSequence embeddings getCacheKey xs c))"
  by (simp add: embedSequence_def)

lemma embedSequence_fills:
  assumes "cacheHolds embeddings getCacheKey acc c" and "distinct acc"
    and "inj_on getCacheKey (set acc \<union> set reqs)"
    and "\<forall>x \<in> set reqs. embeddings x \<noteq> None"
    and "card (set acc \<union> set reqs) \<le> MAX_CACHE_SIZE c"
  shows "cacheHolds embeddings getCacheKey (firstSeen acc reqs) (embedSequence embeddings getCacheKey reqs c)
    \<and> MAX_CACHE_SIZE (embedSequence embeddings getCacheKey reqs c) = MAX_CACHE_SIZE c
    \<and> distinct (firstSeen acc reqs) \<and> set (firstSeen acc reqs) = set acc \<union> set reqs"
  using assms
proof (induction reqs arbitrary: acc c)
  case Nil
  then show ?case by (simp add: firstSeen_def embedSequence_def)
next
  case (Cons x reqs)
  let ?c1 = "snd (generateEmbedding embeddings getCacheKey x True c)"
  have inj1: "inj_on getCacheKey (insert x (set acc))"
    using Cons.prems(3) by (auto simp: inj_on_def)
  show ?case
  proof (cases "x \<in> set acc")
    case True
    have h: "cacheHolds embeddings getCacheKey acc ?c1" and m: "MAX_CACHE_SIZE ?c1 = MAX_CACHE_SIZE c"
      using generateEmbedding_hit [OF Cons.prems(1) inj1 True] by simp_all
    have sub: "set acc \<union> set reqs = set acc \<union> set (x # reqs)" using True by auto
    have p3: "inj_on getCacheKey (set acc \<union> set reqs)"
      using Cons.prems(3) by (simp only: sub)
    have p4: "\<forall>x \<in> set reqs. embeddings x \<noteq> None" using Cons.prems(4) by simp
    have p5: "card (set acc \<union> set reqs) \<le> MAX_CACHE_SIZE ?c1"
      using Cons.prems(5) m by (simp only: sub)
    note ih = Cons.IH [OF h Cons.prems(2) p3 p4 p5]
    have fs: "firstSeen acc (x # reqs) = firstSeen acc reqs"
      using True by (simp add: firstSeen_Cons)
    show ?thesis
      unfolding fs embedSequence_Cons using ih m by (simp only: sub)
  next
    case False
    have "card (insert x (set acc)) \<le> card (set acc \<union> set (x # reqs))"
      by (intro card_mono) auto
    then have room: "length acc < MAX_CACHE_SIZE c"
      using False Cons.prems(2,5) distinct_card [of acc] by simp
    have nn: "embeddings x \<noteq> None" using Cons.prems(4) by simp
    have h: "cacheHolds embeddings getCacheKey (acc @ [x]) ?c1" and m: "MAX_CACHE_SIZE ?c1 = MAX_CACHE_SIZE c"
      using generateEmbedding_miss_room [OF Cons.prems(1) inj1 False nn room] by simp_all
    have sub: "set (acc @ [x]) \<union> set reqs = set acc \<union> set (x # reqs)" by auto
    have p2: "distinct (acc @ [x])" using Cons.prems(2) False by simp
    have p3: "inj_on getCacheKey (set (acc @ [x]) \<union> set reqs)"
      using Cons.prems(3) by (simp only: sub)
    have p4: "\<forall>x \<in> set reqs. embeddings x \<noteq> None" using Cons.prems(4) by simp
    have p5: "card (set (acc @ [x]) \<union> set reqs) \<le> MAX_CACHE_SIZE ?c1"
      using Cons.prems(5) m by (simp only: sub)
    note ih = Cons.IH [OF h p2 p3 p4 p5]
    have fs: "firstSeen acc (x # reqs) = firstSeen (acc @ [x]) reqs"
      using False by (simp add: firstSeen_Cons)
    show ?thesis
      unfolding fs embedSequence_Cons using ih m by (simp only: sub)
  qed
qed

text \<open>
  Claim C9. Starting from an empty cache of capacity \<open>MAX_CACHE_SIZE\<close>, any sequence of
  requests \<open>reqs\<close> over exactly \<open>MAX_CACHE_SIZE\<close> distinct texts (repeats are cache reads)
  followed by a request for a further text \<open>t\<close> leaves the cache at capacity with exactly
  the first-inserted text, \<open>hd reqs\<close>, evicted: every other text is still cached, however
  often \<open>hd reqs\<close> was read in between. The provider is assumed to answer and the digests
  of the texts to be distinct.
\<close>

theorem cache_evicts_first_inserted:
  assumes "embeddingCache c = []" and "0 < MAX_CACHE_SIZE c"
    and "inj_on getCacheKey (set (reqs @ [t]))"
    and "\<forall>x \<in> set (reqs @ [t]). embeddings x \<noteq> None"
    and "card (set reqs) = MAX_CACHE_SIZE c" and "t \<notin> set reqs"
  shows "map_of (embeddingCache (embedSequence embeddings getCacheKey (reqs @ [t]) c)) (getCacheKey (hd reqs)) = None
    \<and> (\<forall>x \<in> set (reqs @ [t]). x \<noteq> hd reqs \<longrightarrow>
          map_of (embeddingCache (embedSequence embeddings getCacheKey (reqs @ [t]) c)) (getCacheKey x)
            = embeddings x)
    \<and> length (embeddingCache (embedSequence embeddings getCacheKey (reqs @ [t]) c)) = MAX_CACHE_SIZE c"
proof -
  let ?c1 = "embedSequence embeddings getCacheKey reqs c"
  let ?c2 = "embedSequence embeddings getCacheKey (reqs @ [t]) c"
  have ne: "reqs \<noteq> []" using assms(2,5) by auto
  have h0: "cacheHolds embeddings getCacheKey [] c" using assms(1) by (simp add: cacheHolds_def)
  have inj0: "inj_on getCacheKey (set [] \<union> set reqs)"
    using assms(3) by (auto simp: inj_on_def)
  have fill: "cacheHolds embeddings getCacheKey (firstSeen [] reqs) ?c1
    \<and> MAX_CACHE_SIZE ?c1 = MAX_CACHE_SIZE c
    \<and> distinct (firstSeen [] reqs) \<and> set (firstSeen [] reqs) = set [] \<union> set reqs"
    using assms(4,5) by (intro embedSequence_fills [OF h0 _ inj0]) simp_all
  obtain rest where fs: "firstSeen [] reqs = hd reqs # rest"
    using firstSeen_hd [OF ne] by blast
  have dist: "distinct (hd reqs # rest)" and st: "set (hd reqs # rest) = set reqs"
    using fill fs by simp_all
  have len: "length (hd reqs # rest) = MAX_CACHE_SIZE c"
    using distinct_card [OF dist] st assms(5) by simp
  have h1: "cacheHolds embeddings getCacheKey (hd reqs # rest) ?c1" using fill fs by simp
  have inj1: "inj_on getCacheKey (insert t (set (hd reqs # rest)))"
    using assms(3) st by (auto simp: inj_on_def)
  have tn: "t \<notin> set (hd reqs # rest)" using assms(6) st by simp
  have te: "embeddings t \<noteq> None" using assms(4) by simp
  have full: "length (hd reqs # rest) \<ge> MAX_CACHE_SIZE ?c1" using len fill by simp
  have h2: "cacheHolds embeddings getCacheKey (rest @ [t]) ?c2"
    using generateEmbedding_miss_full [OF h1 inj1 tn te full dist]
    by (simp add: embedSequence_snoc)
  have look: "map_of (embeddingCache ?c2) (getCacheKey x)
               = (if x \<in> set (rest @ [t]) then Some (the (embeddings x)) else None)"
    if "x \<in> set (reqs @ [t])" for x
  proof -
    have "inj_on getCacheKey (insert x (set (rest @ [t])))"
      using assms(3) st that by (auto simp: inj_on_def)
    from map_of_cacheHolds [OF h2 this] show ?thesis .
  qed
  have hdin: "hd reqs \<in> set (reqs @ [t])" using ne by simp
  have hdout: "hd reqs \<notin> set (rest @ [t])" using dist tn by auto
  have 1: "map_of (embeddingCache ?c2) (getCacheKey (hd reqs)) = None"
    using look [OF hdin] hdout by simp
  have 2: "\<forall>x \<in> set (reqs @ [t]). x \<noteq> hd reqs \<longrightarrow>
          map_of (embeddingCache ?c2) (getCacheKey x) = embeddings x"
  proof (intro ballI impI)
    fix x assume x: "x \<in> set (reqs @ [t])" and xn: "x \<noteq> hd reqs"
    have "x \<in> set (rest @ [t])" using x xn st by auto
    moreover have "embeddings x \<noteq> None" using assms(4) x by blast
    ultimately show "map_of (embeddingCache ?c2) (getCacheKey x) = embeddings x"
      using look [OF x] by auto
  qed
  have 3: "length (embeddingCache ?c2) = MAX_CACHE_SIZE c"
    using h2 len by (simp add: cacheHolds_def)
  from 1 2 3 show ?thesis by blast
qed

theorem cache_evicts_first_inserted_witness:
  "embeddingCache smallClient = [] \<and> 0 < MAX_CACHE_SIZE smallClient
   \<and> card (set [''a'', ''b'', ''a'', ''a'']) = MAX_CACHE_SIZE smallClient
   \<and> ''c'' \<notin> set [''a'', ''b'', ''a'', ''a'']
   \<and> map_of (embeddingCache (embedSequence constEmbeddings (\<lambda>s. s) ([''a'', ''b'', ''a'', ''a''] @ [''c'']) smallClient))
        (hd [''a'', ''b'', ''a'', ''a'']) = None
   \<and> length (embeddingCache (embedSequence constEmbeddings (\<lambda>s. s) ([''a'', ''b'', ''a'', ''a''] @ [''c'']) smallClient)) = 2"
proof -
  have a: "embeddingCache smallClient = []" and b: "0 < MAX_CACHE_SIZE smallClient"
    by (simp_all add: smallClient_def newOllamaClient_def)
  have c: "inj_on (\<lambda>s::string. s) (set ([''a'', ''b'', ''a'', ''a''] @ [''c'']))" by simp
  have d: "\<forall>x \<in> set ([''a'', ''b'', ''a'', ''a''] @ [''c'']). constEmbeddings x \<noteq> None"
    by (simp add: constEmbeddings_def)
  have "set [''a'', ''b'', ''a'', ''a''] = {''a'', ''b''}" by auto
  then have e: "card (set [''a'', ''b'', ''a'', ''a'']) = MAX_CACHE_SIZE smallClient"
    by (simp add: smallClient_def newOllamaClient_def)
  have f: "''c'' \<notin> set [''a'', ''b'', ''a'', ''a'']" by simp
  from cache_evicts_first_inserted [OF a b c d e f] a b e f show ?thesis
    by (simp add: smallClient_def newOllamaClient_def)
qed
section \<open>Properties of retrieval\<close>

lemma limit_or_0: "limit_or (Some 0) d = limit_or None d"
  by (simp add: limit_or_def)

lemma num_or_0: "num_or (Some 0) d = num_or None d"
  by (simp add: num_or_def)

lemma formatSearchResults_relevance:
  "r \<in> set (formatSearchResults now rows) \<Longrightarrow> relevance (memory r) = Some (sr_relevance r)"
  by (auto simp: formatSearchResults_def formatSearchResult_def)

lemma searchMemories_relevance:
  "searchMemories vdist embedText now query uid limit vs = Inr rs \<Longrightarrow> r \<in> set rs \<Longrightarrow>
   relevance (memory r) = Some (sr_relevance r)"
  by (auto simp: searchMemories_def formatSearchResults_relevance split: if_splits option.splits)

lemma reRank_set:
  "fst ` set (reRankResults now results options) = set results"
  by (auto simp: reRankResults_def image_iff)

lemma searchRelevantMemories_threshold:
  assumes "searchRelevantMemories vdist embedText now uid query (Some opts) mm = Inr ms"
    and "m \<in> set ms"
  shows "\<exists>r. relevance m = Some r \<and> r \<ge> num_or (so_threshold opts) 0.7"
proof (cases "searchMemories vdist embedText now query uid (limit_or (so_limit opts) 5 * 2) (vectorStore mm)")
  case (Inl e)
  then show ?thesis using assms by (simp add: searchRelevantMemories_def Let_def split: if_splits)
next
  case (Inr results)
  let ?r1 = "case so_category opts of None \<Rightarrow> results
             | Some c \<Rightarrow> filter (\<lambda>r. category (memory r) = c) results"
  let ?r2 = "filter (\<lambda>r. sr_relevance r \<ge> num_or (so_threshold opts) 0.7) ?r1"
  let ?rr = "reRankResults now ?r2
               \<lparr> importanceWeight = Some 0.3, recencyWeight = Some 0.2, similarityWeight = Some 0.5 \<rparr>"
  have ms: "ms = map (\<lambda>r. memory (fst r)) (take (limit_or (so_limit opts) 5) ?rr)"
    using assms(1) Inr by (simp add: searchRelevantMemories_def Let_def split: if_splits)
  then obtain p where p: "p \<in> set (take (limit_or (so_limit opts) 5) ?rr)" "m = memory (fst p)"
    using assms(2) by auto
  have "p \<in> set ?rr" using p(1) by (rule in_set_takeD)
  then have "fst p \<in> fst ` set ?rr" by (rule imageI)
  then have "fst p \<in> set ?r2" by (simp only: reRank_set)
  then have a: "sr_relevance (fst p) \<ge> num_or (so_threshold opts) 0.7" and b: "fst p \<in> set results"
    by (auto split: option.splits)
  from searchMemories_relevance [OF Inr b] a p(2) show ?thesis by simp
qed




lemma searchRelevantMemories_limit_0: "searchRelevantMemories vdist embedText now uid query (Some (opts\<lparr>so_limit := Some 0\<rparr>)) mm
     = searchRelevantMemories vdist embedText now uid query (Some (opts\<lparr>so_limit := Some 5\<rparr>)) mm"
proof -
  have L: "limit_or (so_limit (opts\<lparr>so_limit := Some 0\<rparr>)) 5 = limit_or (so_limit (opts\<lparr>so_limit := Some 5\<rparr>)) 5"
    by (simp add: limit_or_def)
  have T: "so_threshold (opts\<lparr>so_limit := Some 0\<rparr>) = so_threshold (opts\<lparr>so_limit := Some 5\<rparr>)"
    by simp
  have C: "so_category (opts\<lparr>so_limit := Some 0\<rparr>) = so_category (opts\<lparr>so_limit := Some 5\<rparr>)"
    by simp
  show ?thesis
    unfolding searchRelevantMemories_def option.case
    by (subst L, subst T, subst C) (rule refl)
qed

lemma searchRelevantMemories_threshold_0: "searchRelevantMemories vdist embedText now uid query (Some (opts\<lparr>so_threshold := Some 0\<rparr>)) mm
     = searchRelevantMemories vdist embedText now uid query (Some (opts\<lparr>so_threshold := Some 0.7\<rparr>)) mm"
proof -
  have L: "so_limit (opts\<lparr>so_threshold := Some 0\<rparr>) = so_limit (opts\<lparr>so_threshold := Some 0.7\<rparr>)"
    by simp
  have T: "num_or (so_threshold (opts\<lparr>so_threshold := Some 0\<rparr>)) 0.7
             = num_or (so_threshold (opts\<lparr>so_threshold := Some 0.7\<rparr>)) 0.7"
    by (simp add: num_or_def)
  have C: "so_category (opts\<lparr>so_threshold := Some 0\<rparr>) = so_category (opts\<lparr>so_threshold := Some 0.7\<rparr>)"
    by simp
  show ?thesis
    unfolding searchRelevantMemories_def option.case
    by (subst L, subst T, subst C) (rule refl)
qed

lemma getMemoriesByCategory_eq: "getMemoriesByCategory vdist embedText now uid c mm
     = searchRelevantMemories vdist embedText now uid []
         (Some \<lparr> so_limit = Some 20, so_threshold = Some 0.7, so_includeRelated = None, so_category = Some c \<rparr>) mm"
proof -
  let ?o = "\<lparr> so_limit = Some 20, so_threshold = Some 0.7, so_includeRelated = None, so_category = Some c \<rparr>"
  have u0: "?o\<lparr>so_threshold := Some 0\<rparr>
              = \<lparr> so_limit = Some 20, so_threshold = Some 0, so_includeRelated = None, so_category = Some c \<rparr>"
    by simp
  have u7: "?o\<lparr>so_threshold := Some 0.7\<rparr> = ?o" by simp
  have e: "searchRelevantMemories vdist embedText now uid []
         (Some \<lparr> so_limit = Some 20, so_threshold = Some 0, so_includeRelated = None, so_category = Some c \<rparr>) mm
        = searchRelevantMemories vdist embedText now uid [] (Some ?o) mm"
    using searchRelevantMemories_threshold_0 [of vdist embedText now uid "[]" ?o mm] unfolding u0 u7 .
  show ?thesis
  proof (cases "initialized mm")
    case True
    then show ?thesis unfolding getMemoriesByCategory_def e by simp
  next
    case False
    have "searchRelevantMemories vdist embedText now uid [] (Some ?o) mm = Inl NotInitializedError"
      unfolding searchRelevantMemories_def using False by (rule if_P [OF _])
    then show ?thesis unfolding getMemoriesByCategory_def using False by simp
  qed
qed

lemma getMemoriesByCategory_relevance: 
  assumes g: "getMemoriesByCategory vdist embedText now uid c mm = Inr ms" and m: "m \<in> set ms"
  shows "\<exists>r. relevance m = Some r \<and> r \<ge> 0.7"
proof -
  have "searchRelevantMemories vdist embedText now uid []
         (Some \<lparr> so_limit = Some 20, so_threshold = Some 0, so_includeRelated = None, so_category = Some c \<rparr>) mm
         = Inr ms"
    using g unfolding getMemoriesByCategory_def by (simp split: if_splits)
  from searchRelevantMemories_threshold [OF this m]
  show "\<exists>r. relevance m = Some r \<and> r \<ge> 0.7" by (simp add: num_or_def)
qed

text \<open>
  Claim C10. \<open>searchRelevantMemories\<close> replaces a falsy option by its default: the limit 0
  behaves as the limit 5 and the threshold 0 as the threshold 0.7. \<open>getMemoriesByCategory\<close>,
  which passes the threshold 0, is the search with threshold 0.7, and every memory it
  returns has relevance at least 0.7.
\<close>

theorem searchRelevantMemories_falsy_defaults:
  "searchRelevantMemories vdist embedText now uid query (Some (opts\<lparr>so_limit := Some 0\<rparr>)) mm
     = searchRelevantMemories vdist embedText now uid query (Some (opts\<lparr>so_limit := Some 5\<rparr>)) mm
   \<and> searchRelevantMemories vdist embedText now uid query (Some (opts\<lparr>so_threshold := Some 0\<rparr>)) mm
     = searchRelevantMemories vdist embedText now uid query (Some (opts\<lparr>so_threshold := Some 0.7\<rparr>)) mm
   \<and> getMemoriesByCategory vdist embedText now uid c mm
     = searchRelevantMemories vdist embedText now uid []
         (Some \<lparr> so_limit = Some 20, so_threshold = Some 0.7, so_includeRelated = None, so_category = Some c \<rparr>) mm
   \<and> (getMemoriesByCategory vdist embedText now uid c mm = Inr ms \<longrightarrow>
        (\<forall>m \<in> set ms. \<exists>r. relevance m = Some r \<and> r \<ge> 0.7))"
proof (intro conjI impI ballI)
  show "searchRelevantMemories vdist embedText now uid query (Some (opts\<lparr>so_limit := Some 0\<rparr>)) mm
     = searchRelevantMemories vdist embedText now uid query (Some (opts\<lparr>so_limit := Some 5\<rparr>)) mm"
    by (rule searchRelevantMemories_limit_0)
next
  show "searchRelevantMemories vdist embedText now uid query (Some (opts\<lparr>so_threshold := Some 0\<rparr>)) mm
     = searchRelevantMemories vdist embedText now uid query (Some (opts\<lparr>so_threshold := Some 0.7\<rparr>)) mm"
    by (rule searchRelevantMemories_threshold_0)
next
  show "getMemoriesByCategory vdist embedText now uid c mm
     = searchRelevantMemories vdist embedText now uid []
         (Some \<lparr> so_limit = Some 20, so_threshold = Some 0.7, so_includeRelated = None, so_category = Some c \<rparr>) mm"
    by (rule getMemoriesByCategory_eq)
next
  fix m
  assume "getMemoriesByCategory vdist embedText now uid c mm = Inr ms" and "m \<in> set ms"
  then show "\<exists>r. relevance m = Some r \<and> r \<ge> 0.7"
    by (rule getMemoriesByCategory_relevance)
qed

lemma example_query:
  "collection_query exampleDist [0] 40 (\<lambda>m. userId m = ''u1'') [storedMemory 11 [1], storedMemory 12 [2]]
     = [(storedMemory 11 [1], 1 / 4), (storedMemory 12 [2], 1 / 2)]"
  by (simp add: collection_query_def storedMemory_def exampleMemory_def exampleDist_def storedEmbedding_def)

lemma example_byCategory:
  "getMemoriesByCategory exampleDist exampleEmbed 2000 ''u1'' GENERAL exampleManager
     = Inr [memory (formatSearchResult 2000 (storedMemory 11 [1], 1 / 4))]"
proof -
  have s: "searchMemories exampleDist exampleEmbed 2000 [] ''u1'' 40 (vectorStore exampleManager)
         = Inr [formatSearchResult 2000 (storedMemory 11 [1], 1 / 4), formatSearchResult 2000 (storedMemory 12 [2], 1 / 2)]"
    by (simp add: searchMemories_def exampleManager_def exampleEmbed_def example_query formatSearchResults_def)
  have c1: "category (memory (formatSearchResult 2000 (storedMemory 11 [1], 1 / 4))) = GENERAL"
    and c2: "category (memory (formatSearchResult 2000 (storedMemory 12 [2], 1 / 2))) = GENERAL"
    and r1: "sr_relevance (formatSearchResult 2000 (storedMemory 11 [1], 1 / 4)) = 3 / 4"
    and r2: "sr_relevance (formatSearchResult 2000 (storedMemory 12 [2], 1 / 2)) = 1 / 2"
    by (simp_all add: formatSearchResult_def storedMemory_def exampleMemory_def)
  have i: "initialized exampleManager" by (simp add: exampleManager_def)
  show ?thesis
    unfolding getMemoriesByCategory_def searchRelevantMemories_def
    by (simp add: i s c1 c2 r1 r2 limit_or_def num_or_def reRankResults_def)
qed

theorem searchRelevantMemories_falsy_defaults_witness:
  "getMemoriesByCategory exampleDist exampleEmbed 2000 ''u1'' GENERAL exampleManager
     = Inr [memory (formatSearchResult 2000 (storedMemory 11 [1], 1 / 4))]
   \<and> relevance (memory (formatSearchResult 2000 (storedMemory 11 [1], 1 / 4))) = Some (3 / 4)
   \<and> length (collection_get (\<lambda>m. userId m = ''u1'' \<and> category m = GENERAL)
               (collection (vectorStore exampleManager))) = 2"
proof -
  have r: "relevance (memory (formatSearchResult 2000 (storedMemory 11 [1], 1 / 4))) = Some (3 / 4)"
    by (simp add: formatSearchResult_def)
  have n: "length (collection_get (\<lambda>m. userId m = ''u1'' \<and> category m = GENERAL)
               (collection (vectorStore exampleManager))) = 2"
    by (simp add: collection_get_def exampleManager_def storedMemory_def exampleMemory_def)
  from searchRelevantMemories_falsy_defaults [of exampleDist exampleEmbed 2000 "''u1''" "[]"
      "\<lparr> so_limit = None, so_threshold = None, so_includeRelated = None, so_category = None \<rparr>"
      exampleManager GENERAL "[memory (formatSearchResult 2000 (storedMemory 11 [1], 1 / 4))]"]
    example_byCategory r n
  show ?thesis by simp
qed

lemma searchMemories_fails:
  assumes "vs_initialized vs" and "embedText query = None \<or> \<not> available vs"
  shows "searchMemories vdist embedText now query uid n vs = Inl SearchFailed"
  using assms by (auto simp: searchMemories_def split: option.splits)

lemma searchRelevantMemories_after_failure:
  assumes "initialized mm"
    and "searchMemories vdist embedText now query uid
           (limit_or (case options of None \<Rightarrow> None | Some opts \<Rightarrow> so_limit opts) 5 * 2) (vectorStore mm) = Inl e"
  shows "searchRelevantMemories vdist embedText now uid query options mm = Inr []"
  unfolding searchRelevantMemories_def Let_def using assms by simp

lemma addMemory_embedding_fails:
  assumes "initialized mm" and "embedText (in_content inp) = None"
  shows "fst (addMemory vdist embedText now inp mm) = Inl EmbeddingGenerationFailed"
  unfolding addMemory_def Let_def using assms by simp

lemma findSimilarMemories_unavailable:
  "\<not> available vs \<Longrightarrow> findSimilarMemories vdist now m vs = []"
  by (simp add: findSimilarMemories_def searchByEmbedding_def)

lemma addMemory_insert_fails:
  assumes "initialized mm" and "vs_initialized (vectorStore mm)" and "\<not> available (vectorStore mm)"
    and "embedText (in_content inp) \<noteq> None"
  shows "fst (addMemory vdist embedText now inp mm) = Inl AddMemoryFailed"
proof -
  obtain emb where e: "embedText (in_content inp) = Some emb" using assms(4) by auto
  have f: "findSimilarMemories vdist now m (vectorStore mm) = []" for m
    using assms(3) by (simp add: findSimilarMemories_unavailable)
  have a: "vectorStore_addMemory m (vectorStore mm) = Inl AddMemoryFailed" for m
    using assms(2,3) by (simp add: vectorStore_addMemory_def)
  show ?thesis
    unfolding addMemory_def Let_def using assms(1) by (simp add: e f a)
qed

text \<open>
  Claim C8, as amended. A failure of the embedding provider or of the vector index during
  retrieval is rethrown by \<open>vectorStore.searchMemories\<close> as "Search failed", but
  \<open>searchRelevantMemories\<close> catches it and answers with the empty list: the caller sees
  an empty result, not an error. Insertion does propagate: \<open>addMemory\<close> fails with the
  embedding error when the provider fails and with the insert error when the index fails.
\<close>

theorem retrieval_swallows_provider_errors:
  assumes "initialized mm" and "vs_initialized (vectorStore mm)"
    and "embedText query = None \<or> \<not> available (vectorStore mm)"
  shows "searchMemories vdist embedText now query uid n (vectorStore mm) = Inl SearchFailed
    \<and> searchRelevantMemories vdist embedText now uid query options mm = Inr []
    \<and> (embedText (in_content inp) = None \<longrightarrow>
          fst (addMemory vdist embedText now inp mm) = Inl EmbeddingGenerationFailed)
    \<and> (embedText (in_content inp) \<noteq> None \<and> \<not> available (vectorStore mm) \<longrightarrow>
          fst (addMemory vdist embedText now inp mm) = Inl AddMemoryFailed)"
proof (intro conjI impI)
  show "searchMemories vdist embedText now query uid n (vectorStore mm) = Inl SearchFailed"
    using assms(2,3) by (rule searchMemories_fails)
next
  have "searchMemories vdist embedText now query uid
           (limit_or (case options of None \<Rightarrow> None | Some opts \<Rightarrow> so_limit opts) 5 * 2) (vectorStore mm)
         = Inl SearchFailed"
    using assms(2,3) by (rule searchMemories_fails)
  with assms(1) show "searchRelevantMemories vdist embedText now uid query options mm = Inr []"
    by (rule searchRelevantMemories_after_failure)
next
  assume "embedText (in_content inp) = None"
  with assms(1) show "fst (addMemory vdist embedText now inp mm) = Inl EmbeddingGenerationFailed"
    by (rule addMemory_embedding_fails)
next
  assume "embedText (in_content inp) \<noteq> None \<and> \<not> available (vectorStore mm)"
  then show "fst (addMemory vdist embedText now inp mm) = Inl AddMemoryFailed"
    using assms(1,2) by (intro addMemory_insert_fails) simp_all
qed

theorem retrieval_swallows_provider_errors_witness:
  "initialized exampleManager \<and> vs_initialized (vectorStore exampleManager)
   \<and> failingEmbed ''hello'' = None
   \<and> searchRelevantMemories exampleDist failingEmbed 2000 ''u1'' ''hello'' None exampleManager = Inr []
   \<and> fst (addMemory exampleDist failingEmbed 2000 exampleInput exampleManager) = Inl EmbeddingGenerationFailed"
proof -
  have a: "initialized exampleManager" and b: "vs_initialized (vectorStore exampleManager)"
    by (simp_all add: exampleManager_def)
  have c: "failingEmbed ''hello'' = None" by (simp add: failingEmbed_def)
  have d: "failingEmbed ''hello'' = None \<or> \<not> available (vectorStore exampleManager)"
    using c by simp
  have e: "failingEmbed (in_content exampleInput) = None" by (simp add: failingEmbed_def)
  from retrieval_swallows_provider_errors [where mm = exampleManager and embedText = failingEmbed
      and query = "''hello''" and vdist = exampleDist and now = 2000 and uid = "''u1''" and n = 10
      and options = None and inp = exampleInput, OF a b d]
    a b c e
  show ?thesis by simp
qed

text \<open>
  The claim as stated fails: with a failing embedding provider \<open>searchMemories\<close> throws and
  \<open>searchRelevantMemories\<close> returns the empty list.
\<close>

theorem retrieval_error_surfaces_counterexample:
  "searchMemories exampleDist failingEmbed 2000 ''hello'' ''u1'' 10 (vectorStore exampleManager)
     = Inl SearchFailed
   \<and> searchRelevantMemories exampleDist failingEmbed 2000 ''u1'' ''hello'' None exampleManager = Inr []"
  by (simp add: searchRelevantMemories_def searchMemories_def exampleManager_def failingEmbed_def
      limit_or_def)
section \<open>Properties of fact extraction\<close>

lemma extractKeyFacts_fallback:
  assumes "chat = Inl e
           \<or> (\<exists>response. chat = Inr response \<and> jsonParse (stripFences (trim response)) = None)
           \<or> (\<exists>response j. chat = Inr response \<and> jsonParse (stripFences (trim response)) = Some j
                 \<and> \<not> isArray j)"
  shows "extractKeyFacts jsonParse parseFloatText chat interaction = extractKeyFactsKeywordBased interaction"
proof -
  consider (c1) "chat = Inl e"
    | (c2) response where "chat = Inr response" "jsonParse (stripFences (trim response)) = None"
    | (c3) response j where "chat = Inr response"
        "jsonParse (stripFences (trim response)) = Some j" "\<not> isArray j"
    using assms by blast
  then show ?thesis
  proof cases
    case c1
    then show ?thesis by (simp add: extractKeyFacts_def)
  next
    case c2
    then show ?thesis by (simp add: extractKeyFacts_def)
  next
    case c3
    then show ?thesis by (cases j) (simp_all add: extractKeyFacts_def isArray_def)
  qed
qed

lemma in_optional:
  "f \<in> set ((if a then [x1] else []) @ (if b then [x2] else []) @ (if c then [x3] else [])
            @ (if d then [x4] else []) @ (if e then [x5] else [])) \<Longrightarrow>
   f = x1 \<or> f = x2 \<or> f = x3 \<or> f = x4 \<or> f = x5"
  by (auto split: if_splits)

lemma keyword_facts_canned:
  assumes "f \<in> set (extractKeyFactsKeywordBased interaction)"
  shows "(fact_importance f = 0.95 \<and> fact_type f = PREFERENCE \<and> fact_category f = GENERAL
            \<and> fact_content f = rememberWhat (userMessage interaction))
       \<or> (fact_importance f = 0.8 \<and> fact_type f = EVENT \<and> fact_category f = BUG_REPORT
            \<and> fact_content f = ''Customer reported: '' @ userMessage interaction)
       \<or> (fact_importance f = 0.7 \<and> fact_type f = EVENT \<and> fact_category f = FEATURE_REQUEST
            \<and> fact_content f = ''Customer requested: '' @ userMessage interaction)
       \<or> (fact_importance f = 0.6 \<and> fact_type f = PREFERENCE \<and> fact_category f = GENERAL
            \<and> fact_content f = ''Customer preference: '' @ userMessage interaction)
       \<or> (fact_importance f = 0.7 \<and> fact_type f = PREFERENCE \<and> fact_category f = GENERAL
            \<and> fact_content f = ''Customer info: '' @ userMessage interaction)"
proof -
  from assms have
    "f = \<lparr> fact_content = rememberWhat (userMessage interaction), fact_importance = 0.95,
            fact_type = PREFERENCE, fact_category = GENERAL, fact_confidence = None \<rparr>
     \<or> f = \<lparr> fact_content = ''Customer reported: '' @ userMessage interaction, fact_importance = 0.8,
            fact_type = EVENT, fact_category = BUG_REPORT, fact_confidence = None \<rparr>
     \<or> f = \<lparr> fact_content = ''Customer requested: '' @ userMessage interaction, fact_importance = 0.7,
            fact_type = EVENT, fact_category = FEATURE_REQUEST, fact_confidence = None \<rparr>
     \<or> f = \<lparr> fact_content = ''Customer preference: '' @ userMessage interaction, fact_importance = 0.6,
            fact_type = PREFERENCE, fact_category = GENERAL, fact_confidence = None \<rparr>
     \<or> f = \<lparr> fact_content = ''Customer info: '' @ userMessage interaction, fact_importance = 0.7,
            fact_type = PREFERENCE, fact_category = GENERAL, fact_confidence = None \<rparr>"
    unfolding extractKeyFactsKeywordBased_def Let_def by (rule in_optional)
  then show ?thesis by (elim disjE) simp_all
qed

text \<open>
  Claim C7. When the chat call throws, the reply does not parse, or it parses to something
  that is not an array, \<open>extractKeyFacts\<close> returns what the keyword extractor returns. The
  keyword extractor is a total function into lists, and every fact it emits is one of the
  five canned templates with its fixed importance: 0.95 for the remember and name
  commands, 0.8 for bug reports, 0.7 for feature requests and for company information,
  0.6 for preferences.
\<close>

theorem extraction_falls_back_to_keywords:
  assumes "chat = Inl e
           \<or> (\<exists>response. chat = Inr response \<and> jsonParse (stripFences (trim response)) = None)
           \<or> (\<exists>response j. chat = Inr response \<and> jsonParse (stripFences (trim response)) = Some j
                 \<and> \<not> isArray j)"
  shows "extractKeyFacts jsonParse parseFloatText chat interaction = extractKeyFactsKeywordBased interaction
    \<and> (\<forall>f \<in> set (extractKeyFactsKeywordBased interaction).
         (fact_importance f = 0.95 \<and> fact_type f = PREFERENCE \<and> fact_category f = GENERAL
            \<and> fact_content f = rememberWhat (userMessage interaction))
       \<or> (fact_importance f = 0.8 \<and> fact_type f = EVENT \<and> fact_category f = BUG_REPORT
            \<and> fact_content f = ''Customer reported: '' @ userMessage interaction)
       \<or> (fact_importance f = 0.7 \<and> fact_type f = EVENT \<and> fact_category f = FEATURE_REQUEST
            \<and> fact_content f = ''Customer requested: '' @ userMessage interaction)
       \<or> (fact_importance f = 0.6 \<and> fact_type f = PREFERENCE \<and> fact_category f = GENERAL
            \<and> fact_content f = ''Customer preference: '' @ userMessage interaction)
       \<or> (fact_importance f = 0.7 \<and> fact_type f = PREFERENCE \<and> fact_category f = GENERAL
            \<and> fact_content f = ''Customer info: '' @ userMessage interaction))"
proof (intro conjI ballI)
  show "extractKeyFacts jsonParse parseFloatText chat interaction = extractKeyFactsKeywordBased interaction"
    using assms by (rule extractKeyFacts_fallback)
next
  fix f assume "f \<in> set (extractKeyFactsKeywordBased interaction)"
  then show "(fact_importance f = 0.95 \<and> fact_type f = PREFERENCE \<and> fact_category f = GENERAL
            \<and> fact_content f = rememberWhat (userMessage interaction))
       \<or> (fact_importance f = 0.8 \<and> fact_type f = EVENT \<and> fact_category f = BUG_REPORT
            \<and> fact_content f = ''Customer reported: '' @ userMessage interaction)
       \<or> (fact_importance f = 0.7 \<and> fact_type f = EVENT \<and> fact_category f = FEATURE_REQUEST
            \<and> fact_content f = ''Customer requested: '' @ userMessage interaction)
       \<or> (fact_importance f = 0.6 \<and> fact_type f = PREFERENCE \<and> fact_category f = GENERAL
            \<and> fact_content f = ''Customer preference: '' @ userMessage interaction)
       \<or> (fact_importance f = 0.7 \<and> fact_type f = PREFERENCE \<and> fact_category f = GENERAL
            \<and> fact_content f = ''Customer info: '' @ userMessage interaction)"
    by (rule keyword_facts_canned)
qed

lemma example_keyword_importances:
  "map fact_importance (extractKeyFactsKeywordBased (exampleInteraction ''My name is Al: bug''))
     = [0.95, 0.8]"
  by (simp add: extractKeyFactsKeywordBased_def exampleInteraction_def toLowerCase_def lowerChar_def
      startsWith_def Let_def)

lemma example_keyword_empty: "extractKeyFactsKeywordBased (exampleInteraction ''hello'') = []"
  by (simp add: extractKeyFactsKeywordBased_def exampleInteraction_def toLowerCase_def lowerChar_def
      startsWith_def)

theorem extraction_falls_back_to_keywords_witness:
  "extractKeyFacts parseFails noParseFloatText (Inl ChatFailed)
       (exampleInteraction ''My name is Al: bug'')
     = extractKeyFactsKeywordBased (exampleInteraction ''My name is Al: bug'')
   \<and> map fact_importance
        (extractKeyFactsKeywordBased (exampleInteraction ''My name is Al: bug''))
       = [0.95, 0.8]
   \<and> extractKeyFacts parseFails noParseFloatText (Inr ''no json here'') (exampleInteraction ''hello'') = []"
proof -
  have a: "(Inl ChatFailed :: error + string) = Inl ChatFailed
           \<or> (\<exists>response. (Inl ChatFailed :: error + string) = Inr response
                 \<and> parseFails (stripFences (trim response)) = None)
           \<or> (\<exists>response j. (Inl ChatFailed :: error + string) = Inr response
                 \<and> parseFails (stripFences (trim response)) = Some j \<and> \<not> isArray j)"
    by simp
  have b: "(Inr ''no json here'' :: error + string) = Inl ChatFailed
           \<or> (\<exists>response. (Inr ''no json here'' :: error + string) = Inr response
                 \<and> parseFails (stripFences (trim response)) = None)
           \<or> (\<exists>response j. (Inr ''no json here'' :: error + string) = Inr response
                 \<and> parseFails (stripFences (trim response)) = Some j \<and> \<not> isArray j)"
    by (simp add: parseFails_def)
  note t1 = extraction_falls_back_to_keywords [where chat = "Inl ChatFailed" and e = ChatFailed
      and jsonParse = parseFails and parseFloatText = noParseFloatText
      and interaction = "exampleInteraction ''My name is Al: bug''", OF a]
  note t2 = extraction_falls_back_to_keywords [where chat = "Inr ''no json here''" and e = ChatFailed
      and jsonParse = parseFails and parseFloatText = noParseFloatText
      and interaction = "exampleInteraction ''hello''", OF b]
  from conjunct1 [OF t1] conjunct1 [OF t2] example_keyword_importances example_keyword_empty
  show ?thesis by simp
qed

text \<open>
  Claim C6 on the code. A fact whose confidence is the number 0 is not rejected: \<open>0 || 0.7\<close>
  is 0.7, and the fact is accepted with confidence 0.7. A fact whose \<open>type\<close> is a number makes
  validation throw, the whole batch is abandoned for the keyword extraction, and the valid
  fact before it is lost.
\<close>

theorem validation_zero_confidence_and_abort:
  "validateExtractedFact noParseFloatText zeroConfidenceFact
     = Inr (Some \<lparr> fact_content = ''User likes tea'', fact_importance = 0.5, fact_type = EXTRACTED_FACT,
                     fact_category = GENERAL, fact_confidence = Some 0.7 \<rparr>)
   \<and> validateExtractedFact noParseFloatText goodFact
     = Inr (Some \<lparr> fact_content = ''User works at Acme'', fact_importance = 0.5, fact_type = EXTRACTED_FACT,
                     fact_category = GENERAL, fact_confidence = Some 0.9 \<rparr>)
   \<and> validateExtractedFact noParseFloatText numericTypeFact = Inl TypeError
   \<and> extractKeyFacts (parsesTo (JArray [goodFact, numericTypeFact])) noParseFloatText (Inr ''[]'')
        (exampleInteraction ''hello'') = []"
proof -
  have 1: "validateExtractedFact noParseFloatText zeroConfidenceFact
     = Inr (Some \<lparr> fact_content = ''User likes tea'', fact_importance = 0.5, fact_type = EXTRACTED_FACT,
                     fact_category = GENERAL, fact_confidence = Some 0.7 \<rparr>)"
    by (simp add: validateExtractedFact_def zeroConfidenceFact_def property_def trim_def isSpace_def
        lowerProperty_def parseFloat_def num_or_def clamp01_def noParseFloatText_def)
  have 2: "validateExtractedFact noParseFloatText goodFact
     = Inr (Some \<lparr> fact_content = ''User works at Acme'', fact_importance = 0.5, fact_type = EXTRACTED_FACT,
                     fact_category = GENERAL, fact_confidence = Some 0.9 \<rparr>)"
    by (simp add: validateExtractedFact_def goodFact_def property_def trim_def isSpace_def
        lowerProperty_def parseFloat_def num_or_def clamp01_def noParseFloatText_def)
  have 3: "validateExtractedFact noParseFloatText numericTypeFact = Inl TypeError"
    by (simp add: validateExtractedFact_def numericTypeFact_def property_def trim_def isSpace_def
        lowerProperty_def)
  have 4: "extractKeyFacts (parsesTo (JArray [goodFact, numericTypeFact])) noParseFloatText (Inr ''[]'')
        (exampleInteraction ''hello'') = []"
    by (simp add: extractKeyFacts_def parsesTo_def 2 3 example_keyword_empty)
  from 1 2 3 4 show ?thesis by blast
qed
section \<open>Properties of insertion and conflict resolution\<close>






lemma whereClause_userId:
  "uid \<noteq> [] \<Longrightarrow>
   whereClause \<lparr> f_userId = Some uid, f_category = None, f_type = None,
                 timestampGte = None, timestampLte = None \<rparr> m = (userId m = uid)"
  by (simp add: whereClause_def)

lemma findSimilarMemories_ready:
  assumes "vs_initialized vs" and "available vs"
  shows "findSimilarMemories vdist now m vs
     = take 5 (formatSearchResults now
         (collection_query vdist (storedEmbedding m) 10
            (whereClause \<lparr> f_userId = Some (userId m), f_category = None, f_type = None,
                           timestampGte = None, timestampLte = None \<rparr>) (collection vs)))"
  using assms by (simp add: findSimilarMemories_def searchByEmbedding_def truthyBound_def)


lemma addMemory_unfold:
  assumes "initialized mm" and "embedText (in_content inp) = Some e"
  shows "addMemory vdist embedText now inp mm =
     (case findSimilarMemories vdist now (newRecord now inp (nextId mm) e) (vectorStore mm) of
        d # ds \<Rightarrow>
          if sr_relevance d > 0.95 then (Inr (memId (memory d)), mm\<lparr>nextId := nextId mm + 1\<rparr>)
          else (case vectorStore_addMemory (newRecord now inp (nextId mm) e) (vectorStore mm) of
                  Inl er \<Rightarrow> (Inl er, mm\<lparr>nextId := nextId mm + 1\<rparr>)
                | Inr vs' \<Rightarrow> (Inr (nextId mm), mm\<lparr>nextId := nextId mm + 1, vectorStore := vs'\<rparr>))
      | [] \<Rightarrow>
          (case vectorStore_addMemory (newRecord now inp (nextId mm) e) (vectorStore mm) of
             Inl er \<Rightarrow> (Inl er, mm\<lparr>nextId := nextId mm + 1\<rparr>)
           | Inr vs' \<Rightarrow> (Inr (nextId mm), mm\<lparr>nextId := nextId mm + 1, vectorStore := vs'\<rparr>)))"
  using assms by (simp add: addMemory_def Let_def newRecord_def cong: list.case_cong sum.case_cong if_cong)










section \<open>Properties of deduplication\<close>

lemma sort_key_snoc_least:
  "\<forall>y \<in> set xs. f x < f y \<Longrightarrow> sort_key f (xs @ [x]) = x # sort_key f xs"
proof (induction xs)
  case Nil
  then show ?case by simp
next
  case (Cons a xs)
  then have "sort_key f (xs @ [x]) = x # sort_key f xs" and "\<not> f a \<le> f x" by auto
  then show ?case by simp
qed

lemma sort_key_head_least:
  assumes "sort_key f xs = a # r" and "y \<in> set xs"
  shows "f a \<le> f y"
proof -
  have "sorted (map f (sort_key f xs))" by simp
  then have "\<forall>z \<in> set r. f a \<le> f z" using assms(1) by simp
  moreover have "y \<in> set (a # r)" using assms by (metis set_sort)
  ultimately show ?thesis by auto
qed

lemma findSimilarMemories_down:
  "\<not> (vs_initialized vs \<and> available vs) \<Longrightarrow> findSimilarMemories vdist now m vs = []"
  by (cases "vs_initialized vs") (simp_all add: findSimilarMemories_def searchByEmbedding_def)

text \<open>The where clause of the duplicate search depends on the user id only.\<close>

lemma findSimilarMemories_scoped:
  assumes "r \<in> set (findSimilarMemories vdist now m vs)" and "userId m \<noteq> []"
  shows "userId (memory r) = userId m"
proof (cases "vs_initialized vs \<and> available vs")
  case False
  then show ?thesis using assms(1) by (simp add: findSimilarMemories_down)
next
  case True
  let ?W = "whereClause \<lparr> f_userId = Some (userId m), f_category = None, f_type = None,
                           timestampGte = None, timestampLte = None \<rparr>"
  from True have "findSimilarMemories vdist now m vs
     = take 5 (formatSearchResults now (collection_query vdist (storedEmbedding m) 10 ?W (collection vs)))"
    by (simp add: findSimilarMemories_ready)
  with assms(1) have "r \<in> set (formatSearchResults now (collection_query vdist (storedEmbedding m) 10 ?W (collection vs)))"
    by (auto dest: in_set_takeD)
  then obtain row where row: "row \<in> set (collection_query vdist (storedEmbedding m) 10 ?W (collection vs))"
    and r: "r = formatSearchResult now row"
    by (auto simp: formatSearchResults_def)
  from row have "row \<in> set (sort_key snd (map (\<lambda>x. (x, vdist (storedEmbedding m) (storedEmbedding x)))
                     (filter ?W (collection vs))))"
    unfolding collection_query_def by (rule in_set_takeD)
  then have "?W (fst row)" by auto
  then have "userId (fst row) = userId m" using assms(2) by (simp add: whereClause_userId)
  then show ?thesis using r by (cases row) (simp add: formatSearchResult_def)
qed

lemma findSimilarMemories_same_query:
  assumes "storedEmbedding m2 = storedEmbedding m" and "userId m2 = userId m"
  shows "map (\<lambda>r. (memId (memory r), sr_relevance r)) (findSimilarMemories vdist now2 m2 vs)
       = map (\<lambda>r. (memId (memory r), sr_relevance r)) (findSimilarMemories vdist now m vs)"
proof (cases "vs_initialized vs \<and> available vs")
  case False
  then show ?thesis by (simp add: findSimilarMemories_down)
next
  case True
  have "map (\<lambda>r. (memId (memory r), sr_relevance r)) (take 5 (formatSearchResults t rows))
          = take 5 (map (\<lambda>row. (memId (fst row), 1 - snd row)) rows)" for t rows
    by (simp add: formatSearchResults_def formatSearchResult_def take_map comp_def split_def)
  then show ?thesis using True assms by (simp add: findSimilarMemories_ready)
qed

lemma relevance_of_row:
  "sr_relevance (formatSearchResult now (x, d)) = 1 - d"
  "memId (memory (formatSearchResult now (x, d))) = memId x"
  by (simp_all add: formatSearchResult_def)

lemma addMemory_twice:
  assumes "ready mm" and "embedText (in_content inp) = Some e" and "vdist e e = 0"
    and "in_content inp2 = in_content inp" and "in_userId inp2 = in_userId inp"
  shows "\<exists>k. fst (addMemory vdist embedText now1 inp mm) = Inr k
     \<and> addMemory vdist embedText now2 inp2 (snd (addMemory vdist embedText now1 inp mm))
         = (Inr k, (snd (addMemory vdist embedText now1 inp mm))
                     \<lparr>nextId := nextId (snd (addMemory vdist embedText now1 inp mm)) + 1\<rparr>)"
proof -
  have i: "initialized mm" and v: "vs_initialized (vectorStore mm)" and a: "available (vectorStore mm)"
    using assms(1) by (simp_all add: ready_def)
  let ?m1 = "newRecord now1 inp (nextId mm) e"
  let ?dup1 = "findSimilarMemories vdist now1 ?m1 (vectorStore mm)"
  let ?W = "whereClause \<lparr> f_userId = Some (in_userId inp), f_category = None, f_type = None,
                           timestampGte = None, timestampLte = None \<rparr>"
  let ?g = "\<lambda>x. (x, vdist e (storedEmbedding x))"
  note u1 = addMemory_unfold [where embedText = embedText and inp = inp, OF i assms(2), of vdist now1]
  have e2: "embedText (in_content inp2) = Some e" using assms(2,4) by simp
  have emb: "storedEmbedding (newRecord t x n e) = e" for t x n
    by (simp add: newRecord_def storedEmbedding_def)
  have uid: "userId (newRecord t x n e) = in_userId x" for t x n
    by (simp add: newRecord_def)
  show ?thesis
  proof (cases "\<exists>d ds. ?dup1 = d # ds \<and> sr_relevance d > 0.95")
    case True
    then obtain d ds where d: "?dup1 = d # ds" "sr_relevance d > 0.95" by blast
    let ?mm1 = "mm\<lparr>nextId := nextId mm + 1\<rparr>"
    have r1: "addMemory vdist embedText now1 inp mm = (Inr (memId (memory d)), ?mm1)"
      unfolding u1 using d by simp
    have i1: "initialized ?mm1" using i by simp
    let ?m2 = "newRecord now2 inp2 (nextId ?mm1) e"
    have "map (\<lambda>r. (memId (memory r), sr_relevance r)) (findSimilarMemories vdist now2 ?m2 (vectorStore mm))
        = map (\<lambda>r. (memId (memory r), sr_relevance r)) ?dup1"
      by (rule findSimilarMemories_same_query) (simp_all add: emb uid assms(5))
    then obtain d' ds' where d': "findSimilarMemories vdist now2 ?m2 (vectorStore mm) = d' # ds'"
      "memId (memory d') = memId (memory d)" "sr_relevance d' = sr_relevance d"
      using d(1) by (cases "findSimilarMemories vdist now2 ?m2 (vectorStore mm)") auto
    note u2 = addMemory_unfold [where embedText = embedText and inp = inp2, OF i1 e2, of vdist now2]
    have r2: "addMemory vdist embedText now2 inp2 ?mm1
                = (Inr (memId (memory d)), ?mm1\<lparr>nextId := nextId ?mm1 + 1\<rparr>)"
      unfolding u2 using d' d(2) by simp
    show ?thesis unfolding r1 fst_conv snd_conv r2 by simp
  next
    case False
    let ?S = "sort_key snd (map ?g (filter ?W (collection (vectorStore mm))))"
    have dup1: "?dup1 = take 5 (formatSearchResults now1 (take 10 ?S))"
      by (simp add: findSimilarMemories_ready [OF v a] collection_query_def emb uid)
    have far: "\<forall>y \<in> set (map ?g (filter ?W (collection (vectorStore mm)))). 0 < snd y"
    proof (cases ?S)
      case Nil
      then have "length (map ?g (filter ?W (collection (vectorStore mm)))) = 0"
        by (metis length_sort list.size(3))
      then show ?thesis by simp
    next
      case (Cons p r)
      obtain x dd where p: "p = (x, dd)" by (cases p)
      have "?dup1 = formatSearchResult now1 (x, dd) # take 4 (formatSearchResults now1 (take 9 r))"
        unfolding dup1 Cons p by (simp add: formatSearchResults_def)
      then have "\<not> sr_relevance (formatSearchResult now1 (x, dd)) > 0.95"
        using False by blast
      then have low: "1 / 20 \<le> dd" by (simp add: relevance_of_row)
      show ?thesis
      proof
        fix y assume "y \<in> set (map ?g (filter ?W (collection (vectorStore mm))))"
        from sort_key_head_least [OF Cons this] have "dd \<le> snd y" by (simp add: p)
        with low show "0 < snd y" by simp
      qed
    qed
    let ?vs1 = "(vectorStore mm)\<lparr>collection := collection (vectorStore mm) @ [?m1]\<rparr>"
    let ?mm1 = "mm\<lparr>nextId := nextId mm + 1, vectorStore := ?vs1\<rparr>"
    have add: "vectorStore_addMemory ?m1 (vectorStore mm) = Inr ?vs1"
      using v a by (simp add: vectorStore_addMemory_def)
    have r1: "addMemory vdist embedText now1 inp mm = (Inr (nextId mm), ?mm1)"
    proof (cases ?dup1)
      case Nil
      then show ?thesis unfolding u1 by (simp add: add)
    next
      case (Cons d ds)
      then have "\<not> sr_relevance d > 0.95" using False by blast
      then show ?thesis unfolding u1 using Cons by (simp add: add)
    qed
    have i1: "initialized ?mm1" using i by simp
    have v1: "vs_initialized (vectorStore ?mm1)" and a1: "available (vectorStore ?mm1)"
      using v a by simp_all
    let ?m2 = "newRecord now2 inp2 (nextId ?mm1) e"
    have W1: "?W ?m1" by (simp add: whereClause_def uid)
    have "sort_key snd (map ?g (filter ?W (collection (vectorStore mm)) @ [?m1]))
            = (?m1, 0) # ?S"
      using far assms(3) sort_key_snoc_least [of "map ?g (filter ?W (collection (vectorStore mm)))" snd "(?m1, 0)"]
      by (simp add: emb)
    then have q: "collection_query vdist e 10 ?W (collection (vectorStore ?mm1)) = (?m1, 0) # take 9 ?S"
      using W1 by (simp add: collection_query_def)
    have dup2: "findSimilarMemories vdist now2 ?m2 (vectorStore ?mm1)
                  = formatSearchResult now2 (?m1, 0) # take 4 (formatSearchResults now2 (take 9 ?S))"
      unfolding findSimilarMemories_ready [OF v1 a1] emb uid assms(5) q
      by (simp add: formatSearchResults_def)
    note u2 = addMemory_unfold [where embedText = embedText and inp = inp2, OF i1 e2, of vdist now2]
    have id1: "memId ?m1 = nextId mm" by (simp add: newRecord_def)
    have r2: "addMemory vdist embedText now2 inp2 ?mm1
                = (Inr (nextId mm), ?mm1\<lparr>nextId := nextId ?mm1 + 1\<rparr>)"
      unfolding u2 dup2 by (simp add: relevance_of_row id1)
    show ?thesis unfolding r1 fst_conv snd_conv r2 by simp
  qed
qed

text \<open>
  Claim C3, as amended. Before a memory is persisted its content is embedded and
  \<open>searchByEmbedding\<close> is run scoped to the same \<open>userId\<close> only; the type is not part of the
  filter. If the top result's relevance exceeds 0.95, insertion is skipped and the existing
  memory's id is returned. So, with the provider and the store answering and identical
  vectors at distance 0, storing the same content twice in sequence for the same user,
  whatever the types of the two inputs, adds no second record, and the second call returns
  the first call's id.
\<close>

theorem dedup_by_user_is_idempotent:
  assumes "ready mm" and "embedText (in_content inp) = Some e" and "vdist e e = 0"
    and "in_content inp2 = in_content inp" and "in_userId inp2 = in_userId inp"
  shows "(\<exists>k. fst (addMemory vdist embedText now1 inp mm) = Inr k
            \<and> fst (addMemory vdist embedText now2 inp2 (snd (addMemory vdist embedText now1 inp mm))) = Inr k)
    \<and> collection (vectorStore (snd (addMemory vdist embedText now2 inp2
                                      (snd (addMemory vdist embedText now1 inp mm)))))
        = collection (vectorStore (snd (addMemory vdist embedText now1 inp mm)))
    \<and> (\<forall>r \<in> set (findSimilarMemories vdist now m vs). userId m \<noteq> [] \<longrightarrow> userId (memory r) = userId m)
    \<and> (\<forall>d ds. findSimilarMemories vdist now1 (newRecord now1 inp (nextId mm) e) (vectorStore mm) = d # ds
                \<and> sr_relevance d > 0.95 \<longrightarrow>
              addMemory vdist embedText now1 inp mm
                = (Inr (memId (memory d)), mm\<lparr>nextId := nextId mm + 1\<rparr>))"
proof (intro conjI)
  from addMemory_twice [where embedText = embedText and inp = inp and vdist = vdist
      and ?now1.0 = now1 and ?now2.0 = now2, OF assms]
  obtain k where k: "fst (addMemory vdist embedText now1 inp mm) = Inr k"
    "addMemory vdist embedText now2 inp2 (snd (addMemory vdist embedText now1 inp mm))
         = (Inr k, (snd (addMemory vdist embedText now1 inp mm))
                     \<lparr>nextId := nextId (snd (addMemory vdist embedText now1 inp mm)) + 1\<rparr>)"
    by blast
  show "\<exists>k. fst (addMemory vdist embedText now1 inp mm) = Inr k
            \<and> fst (addMemory vdist embedText now2 inp2 (snd (addMemory vdist embedText now1 inp mm))) = Inr k"
    using k by (intro exI [of _ k]) simp
  show "collection (vectorStore (snd (addMemory vdist embedText now2 inp2
                                      (snd (addMemory vdist embedText now1 inp mm)))))
        = collection (vectorStore (snd (addMemory vdist embedText now1 inp mm)))"
    unfolding k(2) by simp
next
  show "\<forall>r \<in> set (findSimilarMemories vdist now m vs). userId m \<noteq> [] \<longrightarrow> userId (memory r) = userId m"
    using findSimilarMemories_scoped by blast
next
  have i: "initialized mm" using assms(1) by (simp add: ready_def)
  note u1 = addMemory_unfold [where embedText = embedText and inp = inp, OF i assms(2), of vdist now1]
  show "\<forall>d ds. findSimilarMemories vdist now1 (newRecord now1 inp (nextId mm) e) (vectorStore mm) = d # ds
                \<and> sr_relevance d > 0.95 \<longrightarrow>
              addMemory vdist embedText now1 inp mm
                = (Inr (memId (memory d)), mm\<lparr>nextId := nextId mm + 1\<rparr>)"
    unfolding u1 by simp
qed

theorem dedup_by_user_is_idempotent_witness:
  "ready exampleManager \<and> exampleEmbed (in_content exampleInput) = Some [5]
   \<and> exampleDist [5] [5] = 0
   \<and> in_type (exampleInput\<lparr>in_type := EVENT\<rparr>) \<noteq> in_type exampleInput
   \<and> collection (vectorStore (snd (addMemory exampleDist exampleEmbed 3000 (exampleInput\<lparr>in_type := EVENT\<rparr>)
                                     (snd (addMemory exampleDist exampleEmbed 2000 exampleInput exampleManager)))))
       = collection (vectorStore (snd (addMemory exampleDist exampleEmbed 2000 exampleInput exampleManager)))"
proof -
  have a1: "ready exampleManager" by (simp add: ready_def exampleManager_def)
  have a2: "exampleEmbed (in_content exampleInput) = Some [5]"
    by (simp add: exampleEmbed_def exampleInput_def)
  have a3: "exampleDist [5] [5] = 0" by (simp add: exampleDist_def)
  have a4: "in_content (exampleInput\<lparr>in_type := EVENT\<rparr>) = in_content exampleInput"
    and a5: "in_userId (exampleInput\<lparr>in_type := EVENT\<rparr>) = in_userId exampleInput"
    by simp_all
  have a6: "in_type (exampleInput\<lparr>in_type := EVENT\<rparr>) \<noteq> in_type exampleInput"
    by (simp add: exampleInput_def)
  note t = dedup_by_user_is_idempotent [where embedText = exampleEmbed and inp = exampleInput
      and vdist = exampleDist and ?now1.0 = 2000 and ?now2.0 = 3000, OF a1 a2 a3 a4 a5]
  from t [THEN conjunct2, THEN conjunct1] a1 a2 a3 a6 show ?thesis by blast
qed

text \<open>
  The claim as stated fails where it scopes the search by type: a stored preference is found
  as the duplicate of an input of type event with the same content, and its id is returned.
\<close>

lemma example_duplicate_query:
  "collection_query exampleDist [1] 10
      (whereClause \<lparr> f_userId = Some ''u1'', f_category = None, f_type = None,
                     timestampGte = None, timestampLte = None \<rparr>)
      [storedMemory 11 [1], storedMemory 12 [2]]
     = [(storedMemory 11 [1], 0), (storedMemory 12 [2], 1 / 2)]"
  by (simp add: collection_query_def whereClause_def storedMemory_def exampleMemory_def exampleDist_def
      storedEmbedding_def)

theorem dedup_scoped_by_type_counterexample:
  "in_type eventInput = EVENT \<and> memType (storedMemory 11 [1]) = PREFERENCE
   \<and> content (storedMemory 11 [1]) = in_content eventInput
   \<and> addMemory exampleDist exampleEmbed 2000 eventInput exampleManager
       = (Inr 11, exampleManager\<lparr>nextId := 14\<rparr>)"
proof -
  have i: "initialized exampleManager" and v: "vs_initialized (vectorStore exampleManager)"
    and a: "available (vectorStore exampleManager)"
    and c: "collection (vectorStore exampleManager) = [storedMemory 11 [1], storedMemory 12 [2]]"
    and n: "nextId exampleManager = 13"
    by (simp_all add: exampleManager_def)
  have e: "exampleEmbed (in_content eventInput) = Some [1]"
    by (simp add: exampleEmbed_def eventInput_def)
  have u: "userId (newRecord 2000 eventInput 13 [1]) = ''u1''"
    and se: "storedEmbedding (newRecord 2000 eventInput 13 [1]) = [1]"
    by (simp_all add: newRecord_def eventInput_def storedEmbedding_def)
  have f: "findSimilarMemories exampleDist 2000 (newRecord 2000 eventInput 13 [1]) (vectorStore exampleManager)
         = [formatSearchResult 2000 (storedMemory 11 [1], 0), formatSearchResult 2000 (storedMemory 12 [2], 1 / 2)]"
    unfolding findSimilarMemories_ready [OF v a] u se c example_duplicate_query
    by (simp add: formatSearchResults_def)
  have m: "memId (storedMemory 11 [1]) = 11" by (simp add: storedMemory_def exampleMemory_def)
  have r: "addMemory exampleDist exampleEmbed 2000 eventInput exampleManager
       = (Inr 11, exampleManager\<lparr>nextId := 14\<rparr>)"
    unfolding addMemory_unfold [where embedText = exampleEmbed and inp = eventInput, OF i e] n f
    by (simp add: relevance_of_row m)
  have t: "in_type eventInput = EVENT" and cc: "content (storedMemory 11 [1]) = in_content eventInput"
    by (simp_all add: eventInput_def storedMemory_def exampleMemory_def)
  have p: "memType (storedMemory 11 [1]) = PREFERENCE" by (simp add: storedMemory_def exampleMemory_def)
  from t p cc r show ?thesis by blast
qed
section \<open>Properties of re-ranking\<close>

lemma recencyScore_mono:
  "timestamp b \<le> timestamp a \<Longrightarrow> recencyScore now b \<le> recencyScore now a"
proof -
  assume h: "timestamp b \<le> timestamp a"
  have pos: "0 < real_of_int oneYear" by (simp add: oneYear_def)
  have "real_of_int (now - timestamp a) \<le> real_of_int (now - timestamp b)" using h by simp
  then have "real_of_int (now - timestamp a) / real_of_int oneYear
               \<le> real_of_int (now - timestamp b) / real_of_int oneYear"
    using pos by (simp add: divide_right_mono)
  then show ?thesis unfolding recencyScore_def by linarith
qed

lemma compositeScore_mono:
  assumes "sr_relevance a = sr_relevance b"
    and "importance (memory a) = importance (memory b)"
    and "timestamp (memory b) \<le> timestamp (memory a)"
  shows "compositeScore now searchWeights b \<le> compositeScore now searchWeights a"
proof -
  have "recencyScore now (memory b) \<le> recencyScore now (memory a)"
    using assms(3) by (rule recencyScore_mono)
  then have "recencyScore now (memory b) * 0.2 \<le> recencyScore now (memory a) * 0.2"
    by simp
  then show ?thesis
    using assms(1,2) by (simp add: compositeScore_def searchWeights_def num_or_def)
qed

lemma reRank_snd:
  "p \<in> set (reRankResults now results options) \<Longrightarrow> snd p = compositeScore now options (fst p)"
  by (auto simp: reRankResults_def)

lemma reRank_sorted:
  "sorted (map (\<lambda>s. - snd s) (reRankResults now results options))"
  by (simp add: reRankResults_def)

lemma reRank_stable:
  "filter (\<lambda>s. snd s = k) (reRankResults now results options)
     = filter (\<lambda>s. snd s = k) (map (\<lambda>result. (result, compositeScore now options result)) results)"
proof -
  have "filter (\<lambda>s. - snd s = - k) (reRankResults now results options)
     = filter (\<lambda>s. - snd s = - k) (map (\<lambda>result. (result, compositeScore now options result)) results)"
    unfolding reRankResults_def by (rule sort_key_stable)
  then show ?thesis by simp
qed

text \<open>
  Claim C4. Two results with equal similarity and equal importance, \<open>a\<close> more recent than
  \<open>b\<close>: the composite score of \<open>a\<close> is at least that of \<open>b\<close>; when it is strictly
  greater, no occurrence of \<open>b\<close> precedes an occurrence of \<open>a\<close> in the re-ranked list; and
  when the two scores tie, the two keep their original scan order (the sort is stable).
\<close>

theorem reRank_recent_at_or_above:
  assumes "sr_relevance a = sr_relevance b"
    and "importance (memory a) = importance (memory b)"
    and "timestamp (memory b) < timestamp (memory a)"
  shows "compositeScore now searchWeights b \<le> compositeScore now searchWeights a
    \<and> (compositeScore now searchWeights b < compositeScore now searchWeights a \<longrightarrow>
         (\<forall>i j. i < j \<and> j < length (reRankResults now results searchWeights) \<longrightarrow>
            \<not> (fst (reRankResults now results searchWeights ! i) = b
               \<and> fst (reRankResults now results searchWeights ! j) = a)))
    \<and> (compositeScore now searchWeights b = compositeScore now searchWeights a \<longrightarrow>
         filter (\<lambda>r. r = a \<or> r = b) (map fst (reRankResults now results searchWeights))
           = filter (\<lambda>r. r = a \<or> r = b) results)"
proof (intro conjI impI allI)
  show le: "compositeScore now searchWeights b \<le> compositeScore now searchWeights a"
    using assms by (intro compositeScore_mono) simp_all
next
  fix i j
  let ?out = "reRankResults now results searchWeights"
  assume lt: "compositeScore now searchWeights b < compositeScore now searchWeights a"
    and ij: "i < j \<and> j < length ?out"
  show "\<not> (fst (?out ! i) = b \<and> fst (?out ! j) = a)"
  proof
    assume eq: "fst (?out ! i) = b \<and> fst (?out ! j) = a"
    have mi: "?out ! i \<in> set ?out" and mj: "?out ! j \<in> set ?out" using ij by simp_all
    have si: "snd (?out ! i) = compositeScore now searchWeights b"
      using reRank_snd [OF mi] eq by simp
    have sj: "snd (?out ! j) = compositeScore now searchWeights a"
      using reRank_snd [OF mj] eq by simp
    have "sorted (map (\<lambda>s. - snd s) ?out)" by (rule reRank_sorted)
    then have "map (\<lambda>s. - snd s) ?out ! i \<le> map (\<lambda>s. - snd s) ?out ! j"
      using ij by (intro sorted_nth_mono) simp_all
    then have "snd (?out ! j) \<le> snd (?out ! i)" using ij by simp
    with si sj lt show False by simp
  qed
next
  let ?out = "reRankResults now results searchWeights"
  let ?sc = "compositeScore now searchWeights"
  let ?P = "\<lambda>r. r = a \<or> r = b"
  assume eq: "?sc b = ?sc a"
  have 1: "filter (\<lambda>s. ?P (fst s)) ?out = filter (\<lambda>s. ?P (fst s)) (filter (\<lambda>s. snd s = ?sc a) ?out)"
    using reRank_snd [of _ now results searchWeights] eq
    by (auto simp: filter_filter intro!: filter_cong)
  have 2: "filter (\<lambda>s. ?P (fst s)) (map (\<lambda>r. (r, ?sc r)) results)
         = filter (\<lambda>s. ?P (fst s)) (filter (\<lambda>s. snd s = ?sc a) (map (\<lambda>r. (r, ?sc r)) results))"
    using eq by (auto simp: filter_filter intro!: filter_cong)
  have "filter ?P (map fst ?out) = map fst (filter (\<lambda>s. ?P (fst s)) ?out)"
    by (simp add: filter_map comp_def)
  also have "\<dots> = map fst (filter (\<lambda>s. ?P (fst s)) (map (\<lambda>r. (r, ?sc r)) results))"
    using 1 2 reRank_stable [of "?sc a" now results searchWeights] by simp
  also have "\<dots> = filter ?P results"
    by (simp add: filter_map comp_def)
  finally show "filter ?P (map fst ?out) = filter ?P results" .
qed

theorem reRank_recent_at_or_above_witness:
  "sr_relevance (exampleResult 2 20) = sr_relevance (exampleResult 1 10)
   \<and> importance (memory (exampleResult 2 20)) = importance (memory (exampleResult 1 10))
   \<and> timestamp (memory (exampleResult 1 10)) < timestamp (memory (exampleResult 2 20))
   \<and> compositeScore 1000 searchWeights (exampleResult 1 10) < compositeScore 1000 searchWeights (exampleResult 2 20)
   \<and> map fst (reRankResults 1000 [exampleResult 1 10, exampleResult 2 20] searchWeights)
        = [exampleResult 2 20, exampleResult 1 10]"
  using reRank_recent_at_or_above [of "exampleResult 2 20" "exampleResult 1 10" 1000
      "[exampleResult 1 10, exampleResult 2 20]"]
  by (simp add: exampleResult_def exampleMemory_def reRankResults_def compositeScore_def
      searchWeights_def num_or_def recencyScore_def oneYear_def)

end
